theory Spec2Isabelle
  imports Complex_Main "HOL-Library.Log_Nat"
begin

section \<open>Python numbers\<close>

text \<open>
  The scripts mix Python's unbounded integers (modelled as \<open>int\<close>, with \<open>//\<close> as \<open>div\<close>)
  and floats. A float is modelled by the rational it denotes, and every float operation
  rounds its exact result to the nearest IEEE double (53-bit significand, ties to even).
  The exponent range is not bounded: overflow and subnormal numbers are not modelled.
\<close>

definition pow2 :: "int \<Rightarrow> rat" where
  "pow2 e = (if 0 \<le> e then 2 ^ nat e else 1 / 2 ^ nat (- e))"

definition round_half_even :: "'a::floor_ceiling \<Rightarrow> int" where
  "round_half_even q =
     (let f = \<lfloor>q\<rfloor>; d = q - of_int f
      in if d < 1 / 2 then f else if 1 / 2 < d then f + 1 else if even f then f else f + 1)"

text \<open>The binary exponent \<open>e\<close> of a non-zero rational: \<open>2^e \<le> \<bar>q\<bar> < 2^(e+1)\<close>.\<close>

definition exponent :: "rat \<Rightarrow> int" where
  "exponent q =
     (let (a, b) = quotient_of \<bar>q\<bar>; e0 = bitlen a - bitlen b
      in if pow2 e0 \<le> \<bar>q\<bar> then e0 else e0 - 1)"

definition fl :: "rat \<Rightarrow> rat" where
  "fl q = (if q = 0 then 0
           else let u = pow2 (exponent q - 52)
                in of_int (round_half_even (q / u)) * u)"

text \<open>\<open>int(x)\<close> on a float truncates toward zero.\<close>

definition py_int :: "rat \<Rightarrow> int" where
  "py_int q = (if 0 \<le> q then \<lfloor>q\<rfloor> else \<lceil>q\<rceil>)"

text \<open>\<open>a // b\<close> on floats is the floor of the quotient, as a float.\<close>

definition float_floordiv :: "rat \<Rightarrow> rat \<Rightarrow> rat" where
  "float_floordiv a b = fl (of_int \<lfloor>a / b\<rfloor>)"

text \<open>
  An integer operand of a float operation is first converted to a double, which rounds
  an integer of more than 53 bits. Beyond the range of the doubles Python raises
  OverflowError instead; that is not modelled, and the theorems below that speak of
  every size bound it.
\<close>

definition float_of_int :: "int \<Rightarrow> rat" where
  "float_of_int i = fl (of_int i)"

text \<open>
  \<open>math.cos\<close> and \<open>math.sin\<close> belong to the C library. They are modelled as the real
  function rounded to the nearest double; no proof below computes them.
\<close>

definition fl_real :: "real \<Rightarrow> rat" where
  "fl_real x = (if x = 0 then 0
                else let e = \<lfloor>log 2 \<bar>x\<bar>\<rfloor> - 52
                     in of_int (round_half_even (x / of_rat (pow2 e))) * pow2 e)"

definition math_cos :: "rat \<Rightarrow> rat" where
  "math_cos a = fl_real (cos (of_rat a))"

definition math_sin :: "rat \<Rightarrow> rat" where
  "math_sin a = fl_real (sin (of_rat a))"

text \<open>\<open>str(n)\<close> for an integer, as used by the f-string of the file name.\<close>

fun str_nat :: "nat \<Rightarrow> string" where
  "str_nat n = (if n < 10 then [char_of (48 + n)]
                else str_nat (n div 10) @ [char_of (48 + n mod 10)])"

definition str_int :: "int \<Rightarrow> string" where
  "str_int i = (if i < 0 then CHR ''-'' # str_nat (nat (- i)) else str_nat (nat i))"

section \<open>The imaging library\<close>

text \<open>
  Pillow is an external collaborator. An image is its mode, its size and its pixels in
  row-major order. The drawing primitives of \<open>ImageDraw\<close> are not rasterised here: the
  image keeps the sequence of draw calls made on it, with the arguments the scripts
  computed, and the pixels a call covers are a parameter of \<open>pixel_at\<close> below.
\<close>

datatype mode = L | RGB | RGBA

type_synonym rgb = "nat \<times> nat \<times> nat"

datatype colour = RGB3 nat nat nat | RGBA4 nat nat nat nat

datatype shape =
    Rounded_rectangle rat rat rat rat int
  | Ellipse rat rat rat rat
  | Line rat rat rat rat int
  | Polygon "(rat \<times> rat) list"
  | Rectangle rat rat rat rat

record draw_call =
  shape :: shape
  fill :: colour
  outline :: "colour option"

record 'p image =
  mode :: mode
  width :: int
  height :: int
  data :: "'p list"
  drawn :: "draw_call list"

datatype exn = ImportError | ValueError | FileNotFoundError | FileExistsError
  | IsADirectoryError | KeyboardInterrupt

text \<open>
  \<open>Image.new(mode, (width, height), color)\<close>: a negative size raises ValueError; the colour
  becomes the ink of every pixel, each channel clipped to a byte (\<open>CLIP8\<close> of libImaging).
\<close>

definition CLIP8 :: "nat \<Rightarrow> nat" where
  "CLIP8 v = (if v < 256 then v else 255)"

fun getink_RGB :: "rgb \<Rightarrow> rgb" where
  "getink_RGB (r, g, b) = (CLIP8 r, CLIP8 g, CLIP8 b)"

definition filled :: "mode \<Rightarrow> int \<Rightarrow> int \<Rightarrow> 'p \<Rightarrow> exn + 'p image" where
  "filled m w h ink =
     (if w < 0 \<or> h < 0 then Inl ValueError
      else Inr \<lparr>mode = m, width = w, height = h, data = replicate (nat (w * h)) ink,
                drawn = []\<rparr>)"

definition Image_new_RGB :: "int \<Rightarrow> int \<Rightarrow> rgb \<Rightarrow> exn + rgb image" where
  "Image_new_RGB w h color = filled RGB w h (getink_RGB color)"

definition Image_new_L :: "int \<Rightarrow> int \<Rightarrow> nat \<Rightarrow> exn + nat image" where
  "Image_new_L w h color = filled L w h (CLIP8 color)"

text \<open>\<open>im.putdata(seq)\<close> copies the sequence over the first pixels of the image.\<close>

definition putdata :: "'p image \<Rightarrow> 'p list \<Rightarrow> 'p image" where
  "putdata im xs =
     im\<lparr>data := take (length (data im)) (xs @ drop (length xs) (data im))\<rparr>"

text \<open>
  Pasting through an \<open>L\<close> mask blends each channel as libImaging does:
  \<open>BLEND(mask, in1, in2) = DIV255(in1 * (255 - mask) + in2 * mask)\<close> with
  \<open>DIV255(a) = (((a + 128) >> 8) + (a + 128)) >> 8\<close>.
\<close>

definition DIV255 :: "nat \<Rightarrow> nat" where
  "DIV255 a = (let tmp = a + 128 in (tmp div 256 + tmp) div 256)"

definition BLEND :: "nat \<Rightarrow> nat \<Rightarrow> nat \<Rightarrow> nat" where
  "BLEND m in1 in2 = DIV255 (in1 * (255 - m) + in2 * m)"

fun blend_rgb :: "nat \<Rightarrow> rgb \<Rightarrow> rgb \<Rightarrow> rgb" where
  "blend_rgb m (r1, g1, b1) (r2, g2, b2) = (BLEND m r1 r2, BLEND m g1 g2, BLEND m b1 b2)"

text \<open>\<open>base.paste(top, (0, 0), mask)\<close> for three images of one size.\<close>

definition paste :: "rgb image \<Rightarrow> rgb image \<Rightarrow> nat image \<Rightarrow> rgb image" where
  "paste base top' mask' =
     base\<lparr>data := map (\<lambda>(b, t, m). blend_rgb m b t) (zip (data base) (zip (data top') (data mask')))\<rparr>"

text \<open>The draw calls made through \<open>ImageDraw.Draw(img, ...)\<close> land on the image.\<close>

definition draw_on :: "'p image \<Rightarrow> draw_call list \<Rightarrow> 'p image" where
  "draw_on im calls = im\<lparr>drawn := drawn im @ calls\<rparr>"

text \<open>
  What a call's ink does to a pixel it covers: an RGB ink replaces it, an RGBA ink (draw
  mode \<open>RGBA\<close> on an RGB image) is blended over it by its alpha.
\<close>

fun ink_over :: "colour \<Rightarrow> rgb \<Rightarrow> rgb" where
  "ink_over (RGB3 r g b) p = (r, g, b)"
| "ink_over (RGBA4 r g b a) p = blend_rgb a p (r, g, b)"

text \<open>
  The pixel of an image at column \<open>x\<close>, row \<open>y\<close>, after its draw calls; \<open>cover c x y\<close>
  says whether the library's rasteriser touches that pixel for the call \<open>c\<close>.
\<close>

definition pixel_at ::
  "(draw_call \<Rightarrow> int \<Rightarrow> int \<Rightarrow> bool) \<Rightarrow> rgb image \<Rightarrow> int \<Rightarrow> int \<Rightarrow> rgb option" where
  "pixel_at cover im x y =
     (if 0 \<le> x \<and> x < width im \<and> 0 \<le> y \<and> y < height im
         \<and> nat (y * width im + x) < length (data im)
      then Some (foldl (\<lambda>p c. if cover c x y then ink_over (fill c) p else p)
                   (data im ! nat (y * width im + x)) (drawn im))
      else None)"

definition has_alpha :: "'p image \<Rightarrow> bool" where
  "has_alpha im = (mode im = RGBA)"

section \<open>The gradient generator\<close>

text \<open>
  \<open>int(255 * (y / height))\<close>: the quotient of two integers is the double nearest to the
  exact quotient.
\<close>

definition mask_value :: "int \<Rightarrow> int \<Rightarrow> nat" where
  "mask_value y height' = nat (py_int (fl (float_of_int 255 * fl (of_int y / of_int height'))))"

definition mask_data :: "int \<Rightarrow> int \<Rightarrow> nat list" where
  "mask_data width' height' =
     foldl (\<lambda>acc y. acc @ replicate (nat width') (mask_value (int y) height')) []
       [0..<nat height']"

definition create_gradient :: "int \<Rightarrow> int \<Rightarrow> rgb \<Rightarrow> rgb \<Rightarrow> exn + rgb image" where
  "create_gradient width' height' color1 color2 =
     (case Image_new_RGB width' height' color1 of
        Inl e \<Rightarrow> Inl e
      | Inr base \<Rightarrow>
          (case Image_new_RGB width' height' color2 of
             Inl e \<Rightarrow> Inl e
           | Inr top' \<Rightarrow>
               (case Image_new_L width' height' 0 of
                  Inl e \<Rightarrow> Inl e
                | Inr mask' \<Rightarrow>
                    Inr (paste base top' (putdata mask' (mask_data width' height'))))))"

section \<open>The glyph drawers\<close>

text \<open>
  A drawer receives the draw object, a centre, a glyph size and a colour, and makes a
  fixed sequence of draw calls; the model returns that sequence. Integer coordinates are
  embedded in the rationals, float coordinates are the doubles the script computes.
\<close>

definition rounded_rectangle :: "rat \<Rightarrow> rat \<Rightarrow> rat \<Rightarrow> rat \<Rightarrow> int \<Rightarrow> colour \<Rightarrow> colour option \<Rightarrow> draw_call" where
  "rounded_rectangle x0 y0 x1 y1 radius fill' outline' =
     \<lparr>shape = Rounded_rectangle x0 y0 x1 y1 radius, fill = fill', outline = outline'\<rparr>"

definition ellipse :: "rat \<Rightarrow> rat \<Rightarrow> rat \<Rightarrow> rat \<Rightarrow> colour \<Rightarrow> draw_call" where
  "ellipse x0 y0 x1 y1 fill' = \<lparr>shape = Ellipse x0 y0 x1 y1, fill = fill', outline = None\<rparr>"

definition line :: "rat \<Rightarrow> rat \<Rightarrow> rat \<Rightarrow> rat \<Rightarrow> colour \<Rightarrow> int \<Rightarrow> draw_call" where
  "line x1 y1 x2 y2 fill' width' = \<lparr>shape = Line x1 y1 x2 y2 width', fill = fill', outline = None\<rparr>"

definition polygon :: "(rat \<times> rat) list \<Rightarrow> colour \<Rightarrow> draw_call" where
  "polygon pts fill' = \<lparr>shape = Polygon pts, fill = fill', outline = None\<rparr>"

definition rectangle :: "rat \<Rightarrow> rat \<Rightarrow> rat \<Rightarrow> rat \<Rightarrow> colour \<Rightarrow> draw_call" where
  "rectangle x0 y0 x1 y1 fill' = \<lparr>shape = Rectangle x0 y0 x1 y1, fill = fill', outline = None\<rparr>"

subsection \<open>generate\_icon.py\<close>

definition waveform_bars :: "int \<Rightarrow> int \<Rightarrow> int \<Rightarrow> (int \<times> int \<times> rat) list" where
  "waveform_bars center_x center_y size' =
     (let bar_width = size' div 10; spacing = size' div 12
      in [(center_x - 2 * (bar_width + spacing), center_y, fl (5 / 10)),
          (center_x - (bar_width + spacing), center_y, fl (7 / 10)),
          (center_x, center_y, fl (10 / 10)),
          (center_x + (bar_width + spacing), center_y, fl (7 / 10)),
          (center_x + 2 * (bar_width + spacing), center_y, fl (5 / 10))])"

definition waveform_bar :: "int \<Rightarrow> colour \<Rightarrow> int \<times> int \<times> rat \<Rightarrow> draw_call" where
  "waveform_bar size' color = (\<lambda>(x, y, height_ratio).
     let bar_width = size' div 10;
         bar_height = fl (float_of_int size' * height_ratio);
         top' = fl (float_of_int y - float_floordiv bar_height 2);
         bottom = fl (float_of_int y + float_floordiv bar_height 2)
     in rounded_rectangle (of_int (x - bar_width div 2)) top' (of_int (x + bar_width div 2)) bottom
          (bar_width div 2) color None)"

definition draw_waveform :: "int \<Rightarrow> int \<Rightarrow> int \<Rightarrow> colour \<Rightarrow> draw_call list" where
  "draw_waveform center_x center_y size' color =
     map (waveform_bar size' color) (waveform_bars center_x center_y size')"

subsection \<open>generate\_alternate\_icons.py\<close>

definition calculator_display :: "int \<Rightarrow> int \<Rightarrow> int \<Rightarrow> colour \<Rightarrow> draw_call" where
  "calculator_display center_x center_y size' color =
     (let display_height = size' div 5;
          display_width = py_int (fl (float_of_int size' * fl (8 / 10)));
          display_x = center_x - display_width div 2;
          display_y = center_y - size' div 2 + size' div 10
      in rounded_rectangle (of_int display_x) (of_int display_y)
           (of_int (display_x + display_width)) (of_int (display_y + display_height))
           (size' div 30) color (Some color))"

definition calculator_button :: "int \<Rightarrow> int \<Rightarrow> int \<Rightarrow> colour \<Rightarrow> int \<Rightarrow> int \<Rightarrow> draw_call" where
  "calculator_button center_x center_y size' color row col =
     (let display_height = size' div 5;
          display_y = center_y - size' div 2 + size' div 10;
          button_size = size' div 7;
          button_spacing = size' div 15;
          start_y = display_y + display_height + button_spacing * 2;
          x = center_x - button_size - button_spacing + col * (button_size + button_spacing);
          y = start_y + row * (button_size + button_spacing)
      in rounded_rectangle (of_int x) (of_int y) (of_int (x + button_size)) (of_int (y + button_size))
           (button_size div 4) color None)"

definition calculator_buttons :: "int \<Rightarrow> int \<Rightarrow> int \<Rightarrow> colour \<Rightarrow> draw_call list" where
  "calculator_buttons center_x center_y size' color =
     concat (map (\<lambda>row. map (\<lambda>col. calculator_button center_x center_y size' color row col)
                          [0, 1, 2]) [0, 1, 2])"

definition draw_calculator_icon :: "int \<Rightarrow> int \<Rightarrow> int \<Rightarrow> colour \<Rightarrow> draw_call list" where
  "draw_calculator_icon center_x center_y size' color =
     calculator_display center_x center_y size' color
       # calculator_buttons center_x center_y size' color"

definition weather_ray :: "int \<Rightarrow> int \<Rightarrow> int \<Rightarrow> colour \<Rightarrow> int \<Rightarrow> draw_call" where
  "weather_ray center_x center_y size' color i =
     (let ray_length = size' div 6;
          ray_width = size' div 40;
          angle = fl (fl (float_of_int (i * 45) * fl (314159 / 100000)) / float_of_int 180);
          x1 = fl (float_of_int center_x + fl (math_cos angle * float_of_int (size' div 4)));
          y1 = fl (float_of_int (center_y - size' div 6)
                     + fl (math_sin angle * float_of_int (size' div 4)));
          x2 = fl (float_of_int center_x
                     + fl (math_cos angle * float_of_int (size' div 4 + ray_length)));
          y2 = fl (float_of_int (center_y - size' div 6)
                     + fl (math_sin angle * float_of_int (size' div 4 + ray_length)))
      in line x1 y1 x2 y2 color ray_width)"

definition weather_disks :: "int \<Rightarrow> int \<Rightarrow> int \<Rightarrow> colour \<Rightarrow> draw_call list" where
  "weather_disks center_x center_y size' color =
     (let sun_radius = size' div 8;
          cloud_y = center_y + size' div 10
      in [ellipse (of_int (center_x - sun_radius)) (of_int (center_y - size' div 6 - sun_radius))
            (of_int (center_x + sun_radius)) (of_int (center_y - size' div 6 + sun_radius)) color,
          ellipse (of_int (center_x - size' div 4)) (of_int (cloud_y - size' div 10))
            (of_int center_x) (of_int (cloud_y + size' div 10)) color,
          ellipse (of_int (center_x - size' div 6)) (of_int (cloud_y - size' div 6))
            (of_int (center_x + size' div 6)) (of_int (cloud_y + size' div 8)) color,
          ellipse (of_int center_x) (of_int (cloud_y - size' div 10))
            (of_int (center_x + size' div 4)) (of_int (cloud_y + size' div 10)) color])"

definition draw_weather_icon :: "int \<Rightarrow> int \<Rightarrow> int \<Rightarrow> colour \<Rightarrow> draw_call list" where
  "draw_weather_icon center_x center_y size' color =
     map (weather_ray center_x center_y size' color) [0, 1, 2, 3, 4, 5, 6, 7]
       @ weather_disks center_x center_y size' color"

definition draw_notes_icon :: "int \<Rightarrow> int \<Rightarrow> int \<Rightarrow> colour \<Rightarrow> draw_call list" where
  "draw_notes_icon center_x center_y size' color =
     (let paper_width = py_int (fl (float_of_int size' * fl (65 / 100)));
          paper_height = py_int (fl (float_of_int size' * fl (8 / 10)));
          paper_x = center_x - paper_width div 2;
          paper_y = center_y - paper_height div 2;
          line_spacing = size' div 8;
          line_width = py_int (fl (float_of_int paper_width * fl (8 / 10)));
          line_height = size' div 40;
          line_x = paper_x + paper_width div 10
      in rounded_rectangle (of_int paper_x) (of_int paper_y) (of_int (paper_x + paper_width))
           (of_int (paper_y + paper_height)) (size' div 30) color None
         # map (\<lambda>i. let line_y = paper_y + paper_height div 4 + i * line_spacing
                     in rectangle (of_int line_x) (of_int line_y) (of_int (line_x + line_width))
                          (of_int (line_y + line_height)) (RGBA4 255 255 255 180))
             [0, 1, 2, 3])"

definition draw_wellness_icon :: "int \<Rightarrow> int \<Rightarrow> int \<Rightarrow> colour \<Rightarrow> draw_call list" where
  "draw_wellness_icon center_x center_y size' color =
     (let heart_size = py_int (fl (float_of_int size' * fl (6 / 10)));
          left_center_x = center_x - heart_size div 4;
          left_center_y = center_y - heart_size div 6;
          circle_radius = heart_size div 3;
          right_center_x = center_x + heart_size div 4;
          right_center_y = center_y - heart_size div 6
      in [ellipse (of_int (left_center_x - circle_radius)) (of_int (left_center_y - circle_radius))
            (of_int (left_center_x + circle_radius)) (of_int (left_center_y + circle_radius)) color,
          ellipse (of_int (right_center_x - circle_radius)) (of_int (right_center_y - circle_radius))
            (of_int (right_center_x + circle_radius)) (of_int (right_center_y + circle_radius)) color,
          polygon [(of_int (left_center_x - circle_radius), of_int left_center_y),
                   (of_int (right_center_x + circle_radius), of_int right_center_y),
                   (of_int center_x, of_int (center_y + heart_size div 2))] color,
          rectangle (of_int left_center_x) (of_int (left_center_y - circle_radius))
            (of_int right_center_x) (of_int (center_y + heart_size div 4)) color])"

section \<open>The world the scripts run in\<close>

text \<open>
  The scripts act on the file system and the console. A console line is a constructor
  named after the text the script prints:
  \<^item> \<open>Created_app_icon p\<close>: ``Created app icon: p'';
  \<^item> \<open>App_icon_generated\<close>, \<open>Icon_will_appear\<close>: the two closing lines of generate\_icon.py;
  \<^item> \<open>Error e\<close>: ``Error: e'';
  \<^item> \<open>To_fix_install_Pillow\<close>, \<open>Pip3_install_Pillow\<close>: ``To fix this, install Pillow:'' and
    ``pip3 install Pillow'';
  \<^item> \<open>Unknown_icon_type t\<close>: ``Unknown icon type: t'';
  \<^item> \<open>Created_icon t p\<close>: ``Created t icon: p'';
  \<^item> \<open>All_icons_generated\<close>, \<open>Icons_saved_to d\<close>, \<open>Xcode_instruction n\<close>: the closing lines of
    generate\_alternate\_icons.py (the nine lines of instructions are numbered);
  \<^item> \<open>PIL_not_installed\<close>: ``Error: PIL (Pillow) is not installed'';
  \<^item> \<open>Traceback e\<close>: the stack trace of \<open>e\<close>, on the error stream.
\<close>

datatype message =
    Created_app_icon string
  | App_icon_generated
  | Icon_will_appear
  | Error exn
  | To_fix_install_Pillow
  | Pip3_install_Pillow
  | Unknown_icon_type string
  | Created_icon string string
  | All_icons_generated
  | Icons_saved_to string
  | Xcode_instruction nat
  | PIL_not_installed
  | Traceback exn

record world =
  dirs :: "string set"
  files :: "string \<rightharpoonup> rgb image"
  stdout :: "message list"
  stderr :: "message list"

definition print :: "message \<Rightarrow> world \<Rightarrow> world" where
  "print m w = w\<lparr>stdout := stdout w @ [m]\<rparr>"

text \<open>\<open>os.path.join\<close> and \<open>os.path.dirname\<close> of posixpath.\<close>

definition os_path_join :: "string \<Rightarrow> string \<Rightarrow> string" where
  "os_path_join a b =
     (if b \<noteq> [] \<and> hd b = CHR ''/'' then b
      else if a = [] \<or> last a = CHR ''/'' then a @ b
      else a @ ''/'' @ b)"

definition os_path_dirname :: "string \<Rightarrow> string" where
  "os_path_dirname p =
     (let head = rev (dropWhile (\<lambda>c. c \<noteq> CHR ''/'') (rev p))
      in if head \<noteq> [] \<and> \<not> list_all (\<lambda>c. c = CHR ''/'') head
         then rev (dropWhile (\<lambda>c. c = CHR ''/'') (rev head))
         else head)"

text \<open>
  \<open>os.makedirs(d, exist_ok=True)\<close> creates \<open>d\<close> and its missing ancestors, and raises
  FileExistsError when \<open>d\<close> is a regular file. Other failures of the operating system
  (permissions, a full disk) are not modelled.
\<close>

definition path_ancestors :: "string \<Rightarrow> string list" where
  "path_ancestors d = d # [take n d. n \<leftarrow> [1..<length d], d ! n = CHR ''/'']"

definition makedirs :: "string \<Rightarrow> world \<Rightarrow> (exn \<times> world) + world" where
  "makedirs d w =
     (if d \<in> dom (files w) then Inl (FileExistsError, w)
      else Inr (w\<lparr>dirs := dirs w \<union> set (path_ancestors d)\<rparr>))"

text \<open>
  \<open>img.save(path, 'PNG')\<close> first opens the path for writing: an empty path and a path whose
  directory does not exist raise FileNotFoundError, a path that is a directory raises
  IsADirectoryError. Then the encoder runs: it raises ValueError on an image with no
  pixels, after the open has emptied the file, so that no image is left at the path.
  Otherwise the image replaces any file at the path. The file is modelled by the image
  it encodes.
\<close>

definition save :: "rgb image \<Rightarrow> string \<Rightarrow> world \<Rightarrow> (exn \<times> world) + world" where
  "save im path w =
     (let d = os_path_dirname path
      in if path = [] then Inl (FileNotFoundError, w)
         else if path \<in> dirs w then Inl (IsADirectoryError, w)
         else if d \<noteq> [] \<and> d \<notin> dirs w then Inl (FileNotFoundError, w)
         else if width im \<le> 0 \<or> height im \<le> 0
         then Inl (ValueError, w\<lparr>files := (files w)(path := None)\<rparr>)
         else Inr (w\<lparr>files := (files w)(path \<mapsto> im)\<rparr>))"

text \<open>
  \<open>except Exception\<close> catches every exception but those that derive from BaseException
  only; \<open>except ImportError\<close> catches ImportError and its subclasses.
\<close>

fun is_Exception :: "exn \<Rightarrow> bool" where
  "is_Exception KeyboardInterrupt = False"
| "is_Exception e = True"

text \<open>
  An exception nobody catches: the interpreter prints the trace and exits with status 1.
  After a KeyboardInterrupt it ends the process by the signal SIGINT instead, which a
  shell reports as status 130.
\<close>

definition uncaught :: "exn \<Rightarrow> world \<Rightarrow> world \<times> nat" where
  "uncaught e w =
     (w\<lparr>stderr := stderr w @ [Traceback e]\<rparr>, if e = KeyboardInterrupt then 130 else 1)"

section \<open>generate\_icon.py\<close>

definition create_app_icon :: "string \<Rightarrow> int \<Rightarrow> world \<Rightarrow> (exn \<times> world) + world" where
  "create_app_icon output_path size' w =
     (let color1 = (124, 58, 237); color2 = (167, 85, 255)
      in case create_gradient size' size' color1 color2 of
           Inl e \<Rightarrow> Inl (e, w)
         | Inr img \<Rightarrow>
             (let waveform_size = size' div 2;
                  img' = draw_on img
                    (draw_waveform (size' div 2) (size' div 2) waveform_size (RGB3 255 255 255))
              in case save img' output_path w of
                   Inl ew \<Rightarrow> Inl ew
                 | Inr w' \<Rightarrow> Inr (print (Created_app_icon output_path) w')))"

text \<open>The \<open>try\<close> block of the script, applied to the outcome of the call it guards.\<close>

definition generate_icon_handler :: "(exn \<times> world) + world \<Rightarrow> world \<times> nat" where
  "generate_icon_handler r =
     (case r of
        Inr w \<Rightarrow> (print Icon_will_appear (print App_icon_generated w), 0)
      | Inl (e, w) \<Rightarrow>
          if is_Exception e
          then (print Pip3_install_Pillow (print To_fix_install_Pillow (print (Error e) w)), 0)
          else uncaught e w)"

definition generate_icon_main :: "world \<Rightarrow> world \<times> nat" where
  "generate_icon_main w =
     (let icon_path = ''VoiceIt/Assets.xcassets/AppIcon.appiconset/icon-1024.png''
      in generate_icon_handler (create_app_icon icon_path 1024 w))"

text \<open>
  The whole script: line 6 imports PIL at module level, before the \<open>try\<close> block, so a
  missing Pillow raises there.
\<close>

definition generate_icon_script :: "bool \<Rightarrow> world \<Rightarrow> world \<times> nat" where
  "generate_icon_script pillow_installed w =
     (if \<not> pillow_installed then uncaught ImportError w else generate_icon_main w)"

section \<open>generate\_alternate\_icons.py\<close>

definition icon_configs ::
  "string \<rightharpoonup> ((rgb \<times> rgb) \<times> (int \<Rightarrow> int \<Rightarrow> int \<Rightarrow> colour \<Rightarrow> draw_call list))" where
  "icon_configs =
     [''Calculator'' \<mapsto> (((100, 120, 140), (140, 160, 180)), draw_calculator_icon),
      ''Weather'' \<mapsto> (((70, 130, 200), (100, 180, 255)), draw_weather_icon),
      ''Notes'' \<mapsto> (((255, 200, 80), (255, 220, 100)), draw_notes_icon),
      ''Wellness'' \<mapsto> (((200, 100, 150), (230, 130, 180)), draw_wellness_icon)]"

definition create_alternate_icon :: "string \<Rightarrow> string \<Rightarrow> int \<Rightarrow> world \<Rightarrow> (exn \<times> world) + world" where
  "create_alternate_icon icon_type output_dir size' w =
     (case icon_configs icon_type of
        None \<Rightarrow> Inr (print (Unknown_icon_type icon_type) w)
      | Some ((color1, color2), draw_func) \<Rightarrow>
          (case create_gradient size' size' color1 color2 of
             Inl e \<Rightarrow> Inl (e, w)
           | Inr img \<Rightarrow>
               (let symbol_size = py_int (fl (float_of_int size' * fl (5 / 10)));
                    img' = draw_on img
                      (draw_func (size' div 2) (size' div 2) symbol_size (RGBA4 255 255 255 255));
                    output_path = os_path_join output_dir
                      (icon_type @ ''@'' @ str_int (size' div 60) @ ''x.png'')
                in case save img' output_path w of
                     Inl ew \<Rightarrow> Inl ew
                   | Inr w' \<Rightarrow> Inr (print (Created_icon icon_type output_path) w'))))"

text \<open>The loop of \<open>main\<close> over the icon types: each at 120 and at 180 pixels.\<close>

fun generate_all :: "string list \<Rightarrow> string \<Rightarrow> world \<Rightarrow> (exn \<times> world) + world" where
  "generate_all [] output_dir w = Inr w"
| "generate_all (icon_type # icon_types) output_dir w =
     (case create_alternate_icon icon_type output_dir 120 w of
        Inl ew \<Rightarrow> Inl ew
      | Inr w1 \<Rightarrow>
          (case create_alternate_icon icon_type output_dir 180 w1 of
             Inl ew \<Rightarrow> Inl ew
           | Inr w2 \<Rightarrow> generate_all icon_types output_dir w2))"

definition closing_lines :: "string \<Rightarrow> message list" where
  "closing_lines output_dir =
     All_icons_generated # Icons_saved_to output_dir # map Xcode_instruction [0..<9]"

definition main :: "world \<Rightarrow> (exn \<times> world) + world" where
  "main w =
     (let output_dir = ''VoiceIt/Icons''
      in case makedirs output_dir w of
           Inl ew \<Rightarrow> Inl ew
         | Inr w1 \<Rightarrow>
             (case generate_all [''Calculator'', ''Weather'', ''Notes'', ''Wellness''] output_dir w1 of
                Inl ew \<Rightarrow> Inl ew
              | Inr w2 \<Rightarrow> Inr (w2\<lparr>stdout := stdout w2 @ closing_lines output_dir\<rparr>)))"

definition alternate_icons_handler :: "(exn \<times> world) + world \<Rightarrow> world \<times> nat" where
  "alternate_icons_handler r =
     (case r of
        Inr w \<Rightarrow> (w, 0)
      | Inl (e, w) \<Rightarrow>
          if e = ImportError
          then (print Pip3_install_Pillow (print To_fix_install_Pillow (print PIL_not_installed w)), 0)
          else if is_Exception e
          then ((print (Error e) w)\<lparr>stderr := stderr w @ [Traceback e]\<rparr>, 0)
          else uncaught e w)"

text \<open>The whole script: line 7 imports PIL at module level, before \<open>main\<close> and its handler.\<close>

definition generate_alternate_icons_script :: "bool \<Rightarrow> world \<Rightarrow> world \<times> nat" where
  "generate_alternate_icons_script pillow_installed w =
     (if \<not> pillow_installed then uncaught ImportError w else alternate_icons_handler (main w))"

section \<open>Notions used by the statements\<close>

text \<open>The path of an alternate icon, as \<open>create_alternate_icon\<close> builds it.\<close>

definition icon_path :: "string \<Rightarrow> string \<Rightarrow> int \<Rightarrow> string" where
  "icon_path output_dir icon_type size' =
     os_path_join output_dir (icon_type @ ''@'' @ str_int (size' div 60) @ ''x.png'')"

text \<open>What a run leaves on disk, and the exception it ends with, if any.\<close>

definition disk :: "world \<Rightarrow> string set \<times> (string \<rightharpoonup> rgb image)" where
  "disk w = (dirs w, files w)"

fun outcome :: "(exn \<times> world) + world \<Rightarrow> exn option \<times> string set \<times> (string \<rightharpoonup> rgb image)" where
  "outcome (Inl (e, w)) = (Some e, disk w)"
| "outcome (Inr w) = (None, disk w)"

definition empty_world :: world where
  "empty_world = \<lparr>dirs = {}, files = Map.empty, stdout = [], stderr = []\<rparr>"

text \<open>Half the height of a waveform bar, \<open>bar_height // 2\<close>, as an integer.\<close>

definition half_bar :: "int \<Rightarrow> rat \<Rightarrow> int" where
  "half_bar size' height_ratio = \<lfloor>fl (float_of_int size' * height_ratio) / 2\<rfloor>"



text \<open>
  Symmetry of a sequence of draw calls about the vertical line \<open>x = c\<close>: the mirror image
  of every shape is the shape of one of the calls, with the same inks. Two polygons of
  at most three vertices are the same region when they have the same vertices, two lines
  when they join the same two points.
\<close>

fun mirror_shape :: "rat \<Rightarrow> shape \<Rightarrow> shape" where
  "mirror_shape c (Rounded_rectangle x0 y0 x1 y1 r) =
     Rounded_rectangle (2 * c - x1) y0 (2 * c - x0) y1 r"
| "mirror_shape c (Ellipse x0 y0 x1 y1) = Ellipse (2 * c - x1) y0 (2 * c - x0) y1"
| "mirror_shape c (Line x1 y1 x2 y2 w) = Line (2 * c - x1) y1 (2 * c - x2) y2 w"
| "mirror_shape c (Polygon pts) = Polygon (map (\<lambda>(x, y). (2 * c - x, y)) pts)"
| "mirror_shape c (Rectangle x0 y0 x1 y1) = Rectangle (2 * c - x1) y0 (2 * c - x0) y1"

fun same_region :: "shape \<Rightarrow> shape \<Rightarrow> bool" where
  "same_region (Polygon ps) (Polygon qs) =
     (ps = qs \<or> length ps \<le> 3 \<and> length qs \<le> 3 \<and> set ps = set qs)"
| "same_region (Line x1 y1 x2 y2 w) (Line a1 b1 a2 b2 v) =
     (w = v \<and> ((x1, y1, x2, y2) = (a1, b1, a2, b2) \<or> (x1, y1, x2, y2) = (a2, b2, a1, b1)))"
| "same_region s t = (s = t)"

definition symmetric_about :: "rat \<Rightarrow> draw_call list \<Rightarrow> bool" where
  "symmetric_about c calls =
     (\<forall>a\<in>set calls. \<exists>b\<in>set calls.
        same_region (mirror_shape c (shape a)) (shape b)
        \<and> fill b = fill a \<and> outline b = outline a)"

section \<open>Facts about the float model\<close>

lemma pow2_powi: "pow2 e = 2 powi e"
  by (simp add: pow2_def power_int_def field_simps)

lemma pow2_pos: "0 < pow2 e"
  by (simp add: pow2_powi)

lemma pow2_add: "pow2 (a + b) = pow2 a * pow2 b"
  by (simp add: pow2_powi power_int_add)

lemma pow2_nat: "pow2 (int n) = 2 ^ n"
  by (simp add: pow2_powi)

lemma exponent_bounds:
  assumes "0 < q"
  shows "pow2 (exponent q) \<le> q \<and> q < pow2 (exponent q + 1)"
proof -
  obtain a b where ab: "quotient_of q = (a, b)" by (cases "quotient_of q")
  have b: "0 < b" using ab by (rule quotient_of_denom_pos)
  have q: "q = of_int a / of_int b" using ab by (rule quotient_of_div)
  have a: "0 < a" using assms b q by (simp add: zero_less_divide_iff)
  define la where "la = bitlen a"
  define lb where "lb = bitlen b"
  have la1: "1 \<le> la" and lb1: "1 \<le> lb"
    using a b by (auto simp: la_def lb_def bitlen_alt_def)
  have ba: "(2::int) ^ nat (la - 1) \<le> a" "a < 2 ^ nat la"
    using bitlen_bounds [OF a] by (simp_all add: la_def)
  have bb: "(2::int) ^ nat (lb - 1) \<le> b" "b < 2 ^ nat lb"
    using bitlen_bounds [OF b] by (simp_all add: lb_def)
  have ra: "pow2 (la - 1) \<le> of_int a" "of_int a < pow2 la"
  proof -
    have "(of_int ((2::int) ^ nat (la - 1)) :: rat) \<le> of_int a"
      using ba(1) by (simp only: of_int_le_iff)
    then show "pow2 (la - 1) \<le> of_int a"
      using la1 by (simp add: pow2_def)
    have "(of_int a :: rat) < of_int ((2::int) ^ nat la)"
      using ba(2) by (simp only: of_int_less_iff)
    then show "of_int a < pow2 la"
      using la1 by (simp add: pow2_def)
  qed
  have rb: "pow2 (lb - 1) \<le> of_int b" "of_int b < pow2 lb"
  proof -
    have "(of_int ((2::int) ^ nat (lb - 1)) :: rat) \<le> of_int b"
      using bb(1) by (simp only: of_int_le_iff)
    then show "pow2 (lb - 1) \<le> of_int b"
      using lb1 by (simp add: pow2_def)
    have "(of_int b :: rat) < of_int ((2::int) ^ nat lb)"
      using bb(2) by (simp only: of_int_less_iff)
    then show "of_int b < pow2 lb"
      using lb1 by (simp add: pow2_def)
  qed
  have bpos: "(0::rat) < of_int b" using b by simp
  have up: "q < pow2 (la - lb + 1)"
  proof -
    have "of_int a < pow2 (la - lb + 1) * pow2 (lb - 1)"
      using ra(2) by (simp add: pow2_add [symmetric])
    also have "\<dots> \<le> pow2 (la - lb + 1) * of_int b"
      using rb(1) pow2_pos [of "la - lb + 1"] by simp
    finally show ?thesis using bpos by (simp add: q pos_divide_less_eq)
  qed
  have lo: "pow2 (la - lb - 1) \<le> q"
  proof -
    have "pow2 (la - lb - 1) * of_int b \<le> pow2 (la - lb - 1) * pow2 lb"
      using rb(2) pow2_pos [of "la - lb - 1"] by simp
    also have "\<dots> = pow2 (la - 1)"
      by (simp add: pow2_add [symmetric])
    also have "\<dots> \<le> of_int a" by (rule ra(1))
    finally show ?thesis using bpos by (simp add: q pos_le_divide_eq)
  qed
  have e: "exponent q = (if pow2 (la - lb) \<le> q then la - lb else la - lb - 1)"
    using assms ab by (simp add: exponent_def la_def lb_def Let_def)
  show ?thesis
  proof (cases "pow2 (la - lb) \<le> q")
    case True
    with e up show ?thesis by simp
  next
    case False
    with e lo show ?thesis by (simp add: not_le)
  qed
qed

lemma round_half_even_bounds:
  fixes q :: rat
  shows "q - 1 / 2 \<le> of_int (round_half_even q) \<and> of_int (round_half_even q) \<le> q + 1 / 2"
proof -
  define f where "f = \<lfloor>q\<rfloor>"
  have fq: "of_int f \<le> q" "q < of_int f + 1" unfolding f_def by linarith+
  consider "q - of_int f < 1 / 2" | "1 / 2 < q - of_int f" | "q - of_int f = 1 / 2"
    by linarith
  then show ?thesis
  proof cases
    case 1
    then have "round_half_even q = f" by (simp add: round_half_even_def f_def Let_def)
    with 1 fq show ?thesis by simp
  next
    case 2
    then have "round_half_even q = f + 1" by (simp add: round_half_even_def f_def Let_def)
    with 2 fq show ?thesis by simp
  next
    case 3
    then have "round_half_even q = f \<or> round_half_even q = f + 1"
      by (simp add: round_half_even_def f_def Let_def)
    with 3 fq show ?thesis by auto
  qed
qed

lemma fl_error:
  assumes "0 < q"
  shows "q - q / 2 ^ 53 \<le> fl q \<and> fl q \<le> q + q / 2 ^ 53"
proof -
  define e where "e = exponent q"
  define u where "u = pow2 (e - 52)"
  have upos: "0 < u" by (simp add: u_def pow2_pos)
  have eb: "pow2 e \<le> q" using exponent_bounds [OF assms] by (simp add: e_def)
  have "pow2 e = u * 2 ^ 52"
    using pow2_add [of "e - 52" 52] pow2_nat [of 52] by (simp add: u_def)
  with eb have uq: "u / 2 \<le> q / 2 ^ 53" by simp
  have f: "fl q = of_int (round_half_even (q / u)) * u"
    using assms by (simp add: fl_def e_def u_def Let_def)
  have r: "q / u - 1 / 2 \<le> of_int (round_half_even (q / u))"
          "of_int (round_half_even (q / u)) \<le> q / u + 1 / 2"
    using round_half_even_bounds [of "q / u"] by simp_all
  have e1: "(q / u - 1 / 2) * u = q - u / 2" and e2: "(q / u + 1 / 2) * u = q + u / 2"
    using upos by (simp_all add: algebra_simps)
  have "(q / u - 1 / 2) * u \<le> of_int (round_half_even (q / u)) * u"
    using r(1) upos by (simp only: mult_le_cancel_right_pos)
  then have l: "q - u / 2 \<le> fl q" by (simp only: e1 f)
  have "of_int (round_half_even (q / u)) * u \<le> (q / u + 1 / 2) * u"
    using r(2) upos by (simp only: mult_le_cancel_right_pos)
  then have h: "fl q \<le> q + u / 2" by (simp only: e2 f)
  from l h uq show ?thesis by linarith
qed

lemma pow2_less_imp: "pow2 a < pow2 b \<Longrightarrow> a < b"
proof (rule ccontr)
  assume l: "pow2 a < pow2 b" and "\<not> a < b"
  then have "b \<le> a" by simp
  then have "(2::rat) powi b \<le> 2 powi a" by (rule power_int_increasing) simp
  with l show False by (simp add: pow2_powi)
qed

lemma round_half_even_of_int: "round_half_even (of_int k :: rat) = k"
  by (simp add: round_half_even_def)

lemma exponent_abs: "exponent \<bar>q\<bar> = exponent q"
  by (simp add: exponent_def)

lemma fl_representable:
  assumes "\<bar>m\<bar> < 2 ^ 53"
  shows "fl (of_int m * pow2 e) = of_int m * pow2 e"
proof (cases "m = 0")
  case True
  then show ?thesis by (simp add: fl_def)
next
  case False
  define q :: rat where "q = of_int m * pow2 e"
  have q0: "q \<noteq> 0" using False pow2_pos [of e] by (simp add: q_def)
  then have aq: "0 < \<bar>q\<bar>" by simp
  define E where "E = exponent q"
  have "pow2 (exponent \<bar>q\<bar>) \<le> \<bar>q\<bar>" using exponent_bounds [OF aq] by simp
  then have lo: "pow2 E \<le> \<bar>q\<bar>" by (simp add: E_def exponent_abs)
  have m: "(of_int \<bar>m\<bar> :: rat) < of_int (2 ^ 53)" using assms by (simp only: of_int_less_iff)
  have "\<bar>q\<bar> = of_int \<bar>m\<bar> * pow2 e"
    using pow2_pos [of e] by (simp add: q_def abs_mult)
  also have "\<dots> < of_int (2 ^ 53) * pow2 e"
    using m pow2_pos [of e] by (simp only: mult_less_cancel_right_pos)
  also have "\<dots> = pow2 (53 + e)"
    using pow2_nat [of 53] by (simp add: pow2_add)
  finally have "pow2 E < pow2 (53 + e)" using lo by simp
  then have E: "E < 53 + e" by (rule pow2_less_imp)
  define k where "k = nat (e - E + 52)"
  have ke: "e = (E - 52) + int k" using E by (simp add: k_def)
  have "pow2 e = pow2 (E - 52) * pow2 (int k)"
    using pow2_add [of "E - 52" "int k"] ke by simp
  then have pe: "pow2 e = pow2 (E - 52) * 2 ^ k" by (simp add: pow2_nat)
  have u: "pow2 (E - 52) \<noteq> 0" using pow2_pos [of "E - 52"] by simp
  have qu: "q / pow2 (E - 52) = of_int (m * 2 ^ k)"
    using u by (simp add: q_def pe)
  then have "round_half_even (q / pow2 (E - 52)) = m * 2 ^ k"
    by (simp only: round_half_even_of_int)
  then have "fl q = of_int (m * 2 ^ k) * pow2 (E - 52)"
    using q0 by (simp add: fl_def E_def Let_def)
  also have "\<dots> = q" using u by (simp add: q_def pe)
  finally show ?thesis by (simp add: q_def)
qed

lemma fl_of_int: "\<bar>i\<bar> < 2 ^ 53 \<Longrightarrow> fl (of_int i) = of_int i"
  using fl_representable [of i 0] by (simp add: pow2_def)

lemma fl_half: "fl (1 / 2) = 1 / 2"
  using fl_representable [of 1 "- 1"] by (simp add: pow2_def)

lemma fl_5_10: "fl (5 / 10) = 1 / 2"
  using fl_half by simp

lemma fl_10_10: "fl (10 / 10) = 1"
  using fl_of_int [of 1] by simp

lemma float_of_int_exact: "\<bar>i\<bar> < 2 ^ 53 \<Longrightarrow> float_of_int i = of_int i"
  by (simp add: float_of_int_def fl_of_int)

lemma float_of_int_255: "float_of_int 255 = 255"
  using float_of_int_exact [of 255] by simp

section \<open>Facts about the gradient generator\<close>

lemma foldl_append_concat:
  "foldl (\<lambda>acc y. acc @ f y) a ys = a @ concat (map f ys)"
  by (induction ys arbitrary: a) simp_all

lemma mask_data_concat:
  "mask_data w h = concat (map (\<lambda>y. replicate (nat w) (mask_value (int y) h)) [0..<nat h])"
  by (simp add: mask_data_def foldl_append_concat)

lemma length_concat_replicate:
  "length (concat (map (\<lambda>y. replicate n (f y)) [0..<m])) = m * n"
  by (induction m) simp_all

lemma nth_concat_replicate:
  "x < n \<Longrightarrow> y < m \<Longrightarrow> concat (map (\<lambda>y. replicate n (f y)) [0..<m]) ! (y * n + x) = f y"
proof (induction m)
  case 0
  then show ?case by simp
next
  case (Suc m)
  show ?case
  proof (cases "y < m")
    case True
    then have "y * n + x < m * n"
      using Suc.prems(1)
      by (metis add.commute less_le_trans mult_Suc mult_le_mono1 nat_add_left_cancel_less Suc_leI)
    with True Suc show ?thesis
      by (simp add: nth_append length_concat_replicate)
  next
    case False
    with Suc.prems have "y = m" by simp
    with Suc.prems show ?thesis
      by (simp add: nth_append length_concat_replicate)
  qed
qed

lemma length_mask_data: "length (mask_data w h) = nat h * nat w"
  by (simp add: mask_data_concat length_concat_replicate)

lemma map_zip_replicate:
  "length xs = n \<Longrightarrow>
   map f (zip (replicate n a) (zip (replicate n b) xs)) = map (\<lambda>m. f (a, b, m)) xs"
proof (induction xs arbitrary: n)
  case Nil
  then show ?case by simp
next
  case (Cons x xs)
  then obtain k where "n = Suc k" by (cases n) auto
  with Cons show ?case by simp
qed

lemma create_gradient_eq:
  assumes "0 \<le> w" "0 \<le> h"
  shows "create_gradient w h c1 c2 =
    Inr \<lparr>mode = RGB, width = w, height = h,
         data = map (\<lambda>m. blend_rgb m (getink_RGB c1) (getink_RGB c2)) (mask_data w h),
         drawn = []\<rparr>"
proof -
  have n: "nat (w * h) = nat h * nat w"
    using assms by (simp add: nat_mult_distrib mult.commute)
  have "map (\<lambda>(b, t, m). blend_rgb m b t)
          (zip (replicate (nat h * nat w) (getink_RGB c1))
             (zip (replicate (nat h * nat w) (getink_RGB c2)) (mask_data w h)))
        = map (\<lambda>m. blend_rgb m (getink_RGB c1) (getink_RGB c2)) (mask_data w h)"
    by (simp add: map_zip_replicate length_mask_data)
  then show ?thesis
    using assms
    by (simp add: create_gradient_def Image_new_RGB_def Image_new_L_def filled_def paste_def
        putdata_def n length_mask_data)
qed

lemma getink_RGB_id: "r \<le> 255 \<Longrightarrow> g \<le> 255 \<Longrightarrow> b \<le> 255 \<Longrightarrow> getink_RGB (r, g, b) = (r, g, b)"
  by (simp add: CLIP8_def)

section \<open>Facts about the scripts\<close>

lemma outcome_eqD:
  assumes "outcome r = outcome r'"
  obtains (raised) e w w' where "r = Inl (e, w)" "r' = Inl (e, w')" "disk w = disk w'"
        | (returned) w w' where "r = Inr w" "r' = Inr w'" "disk w = disk w'"
proof (cases r)
  case (Inl ew)
  obtain e w where ew: "ew = (e, w)" by (cases ew)
  show ?thesis
  proof (cases r')
    case (Inl ew')
    obtain e' w' where ew': "ew' = (e', w')" by (cases ew')
    from assms \<open>r = Inl ew\<close> Inl ew ew' have "e = e'" "disk w = disk w'" by simp_all
    with \<open>r = Inl ew\<close> Inl ew ew' show ?thesis by (intro raised [of e w w']) simp_all
  next
    case (Inr w')
    with assms \<open>r = Inl ew\<close> ew show ?thesis by simp
  qed
next
  case (Inr w)
  show ?thesis
  proof (cases r')
    case (Inl ew')
    obtain e' w' where ew': "ew' = (e', w')" by (cases ew')
    with assms \<open>r = Inr w\<close> Inl show ?thesis by simp
  next
    case r': (Inr w')
    with assms Inr have "disk w = disk w'" by simp
    with Inr r' show ?thesis by (intro returned [of w w']) simp_all
  qed
qed

lemma disk_print: "disk (print m w) = disk w"
  by (simp add: disk_def print_def)

lemma create_alternate_icon_disk:
  assumes "disk w = disk w'"
  shows "outcome (create_alternate_icon t d s w) = outcome (create_alternate_icon t d s w')"
  using assms
  by (auto simp add: create_alternate_icon_def save_def print_def disk_def Let_def
      split: option.splits sum.splits prod.splits)

lemma generate_all_disk:
  "disk w = disk w' \<Longrightarrow> outcome (generate_all ts d w) = outcome (generate_all ts d w')"
proof (induction ts arbitrary: w w')
  case Nil
  then show ?case by simp
next
  case (Cons t ts)
  have "outcome (create_alternate_icon t d 120 w) = outcome (create_alternate_icon t d 120 w')"
    using Cons.prems by (rule create_alternate_icon_disk)
  then show ?case
  proof (cases rule: outcome_eqD)
    case (raised e v v')
    then show ?thesis by simp
  next
    case first: (returned v v')
    have "outcome (create_alternate_icon t d 180 v) = outcome (create_alternate_icon t d 180 v')"
      using first(3) by (rule create_alternate_icon_disk)
    then show ?thesis
    proof (cases rule: outcome_eqD)
      case (raised e u u')
      with first show ?thesis by simp
    next
      case (returned u u')
      with first Cons.IH [OF returned(3)] show ?thesis by simp
    qed
  qed
qed

lemma generate_all_append:
  "generate_all (xs @ ys) d w =
     (case generate_all xs d w of Inl ew \<Rightarrow> Inl ew | Inr w' \<Rightarrow> generate_all ys d w')"
  by (induction xs arbitrary: w) (simp_all split: sum.splits)

lemma icon_configs_None:
  "t \<notin> {''Calculator'', ''Weather'', ''Notes'', ''Wellness''} \<Longrightarrow> icon_configs t = None"
  by (simp add: icon_configs_def)

lemma create_gradient_props:
  assumes "0 \<le> w" "0 \<le> h"
  shows "\<exists>img. create_gradient w h c1 c2 = Inr img \<and> mode img = RGB \<and> width img = w
           \<and> height img = h \<and> length (data img) = nat (w * h) \<and> drawn img = []"
proof -
  have "nat h * nat w = nat (w * h)"
    using assms by (simp add: nat_mult_distrib mult.commute)
  then show ?thesis
    by (simp add: create_gradient_eq [OF assms] length_mask_data)
qed

lemma create_app_icon_eq:
  assumes "0 < s" "p \<noteq> []" "p \<notin> dirs w"
    and "os_path_dirname p = [] \<or> os_path_dirname p \<in> dirs w"
  shows "\<exists>img. create_gradient s s (124, 58, 237) (167, 85, 255) = Inr img
           \<and> create_app_icon p s w =
               Inr (print (Created_app_icon p)
                 (w\<lparr>files := (files w)(p \<mapsto>
                      draw_on img (draw_waveform (s div 2) (s div 2) (s div 2) (RGB3 255 255 255)))\<rparr>))"
proof -
  have s: "0 \<le> s" using assms(1) by simp
  obtain img where "create_gradient s s (124, 58, 237) (167, 85, 255) = Inr img"
    and "width img = s" "height img = s"
    using create_gradient_props [OF s s] by blast
  then show ?thesis
    using assms by (auto simp add: create_app_icon_def save_def Let_def draw_on_def)
qed

lemma create_alternate_icon_eq:
  assumes "0 < s" "icon_configs t = Some ((c1, c2), f)"
    and "icon_path d t s \<noteq> []" "icon_path d t s \<notin> dirs w"
    and "os_path_dirname (icon_path d t s) = [] \<or> os_path_dirname (icon_path d t s) \<in> dirs w"
  shows "\<exists>img. create_gradient s s c1 c2 = Inr img
           \<and> create_alternate_icon t d s w =
               Inr (print (Created_icon t (icon_path d t s))
                 (w\<lparr>files := (files w)(icon_path d t s \<mapsto>
                      draw_on img (f (s div 2) (s div 2)
                        (py_int (fl (float_of_int s * fl (5 / 10)))) (RGBA4 255 255 255 255)))\<rparr>))"
proof -
  have s: "0 \<le> s" using assms(1) by simp
  obtain img where "create_gradient s s c1 c2 = Inr img"
    and "width img = s" "height img = s"
    using create_gradient_props [OF s s] by blast
  then show ?thesis
    using assms
    by (auto simp add: create_alternate_icon_def save_def Let_def icon_path_def draw_on_def)
qed

lemma create_alternate_icon_save:
  assumes "icon_configs t = Some ((c1, c2), f)" "create_gradient s s c1 c2 = Inr img"
  shows "create_alternate_icon t d s w =
    (case save (draw_on img (f (s div 2) (s div 2)
                 (py_int (fl (float_of_int s * fl (5 / 10)))) (RGBA4 255 255 255 255)))
            (icon_path d t s) w of
       Inl ew \<Rightarrow> Inl ew
     | Inr w' \<Rightarrow> Inr (print (Created_icon t (icon_path d t s)) w'))"
  using assms unfolding icon_path_def
  by (simp add: create_alternate_icon_def Let_def split: sum.splits)

lemma save_directory: "p \<noteq> [] \<Longrightarrow> p \<in> dirs w \<Longrightarrow> save im p w = Inl (IsADirectoryError, w)"
  by (simp add: save_def Let_def)

lemma draw_on_fields:
  "mode (draw_on im calls) = mode im" "width (draw_on im calls) = width im"
  "height (draw_on im calls) = height im" "data (draw_on im calls) = data im"
  "drawn (draw_on im calls) = drawn im @ calls"
  by (simp_all add: draw_on_def)

lemma icon_paths:
  "icon_path ''VoiceIt/Icons'' ''Calculator'' 120 = ''VoiceIt/Icons/Calculator@2x.png''"
  "icon_path ''VoiceIt/Icons'' ''Calculator'' 180 = ''VoiceIt/Icons/Calculator@3x.png''"
  "icon_path ''VoiceIt/Icons'' ''Weather'' 120 = ''VoiceIt/Icons/Weather@2x.png''"
  "icon_path ''VoiceIt/Icons'' ''Weather'' 180 = ''VoiceIt/Icons/Weather@3x.png''"
  "icon_path ''VoiceIt/Icons'' ''Notes'' 120 = ''VoiceIt/Icons/Notes@2x.png''"
  "icon_path ''VoiceIt/Icons'' ''Notes'' 180 = ''VoiceIt/Icons/Notes@3x.png''"
  "icon_path ''VoiceIt/Icons'' ''Wellness'' 120 = ''VoiceIt/Icons/Wellness@2x.png''"
  "icon_path ''VoiceIt/Icons'' ''Wellness'' 180 = ''VoiceIt/Icons/Wellness@3x.png''"
  by code_simp+

lemma icon_dirnames:
  "os_path_dirname ''VoiceIt/Icons/Calculator@2x.png'' = ''VoiceIt/Icons''"
  "os_path_dirname ''VoiceIt/Icons/Calculator@3x.png'' = ''VoiceIt/Icons''"
  "os_path_dirname ''VoiceIt/Icons/Weather@2x.png'' = ''VoiceIt/Icons''"
  "os_path_dirname ''VoiceIt/Icons/Weather@3x.png'' = ''VoiceIt/Icons''"
  "os_path_dirname ''VoiceIt/Icons/Notes@2x.png'' = ''VoiceIt/Icons''"
  "os_path_dirname ''VoiceIt/Icons/Notes@3x.png'' = ''VoiceIt/Icons''"
  "os_path_dirname ''VoiceIt/Icons/Wellness@2x.png'' = ''VoiceIt/Icons''"
  "os_path_dirname ''VoiceIt/Icons/Wellness@3x.png'' = ''VoiceIt/Icons''"
  "os_path_dirname ''VoiceIt/Assets.xcassets/AppIcon.appiconset/icon-1024.png''
     = ''VoiceIt/Assets.xcassets/AppIcon.appiconset''"
  "os_path_dirname ''out/icon.png'' = ''out''"
  by code_simp+

lemma icon_configs_Some:
  assumes "t \<in> {''Calculator'', ''Weather'', ''Notes'', ''Wellness''}"
  shows "\<exists>c1 c2 f. icon_configs t = Some ((c1, c2), f)"
  using assms by (auto simp add: icon_configs_def)

section \<open>Facts about the blend and the rows of the gradient\<close>

lemma DIV255_split:
  obtains q1 r1 r2 where
    "x + 128 = 256 * q1 + r1" "r1 < 256" "q1 + (x + 128) = 256 * DIV255 x + r2" "r2 < 256"
proof
  show "x + 128 = 256 * ((x + 128) div 256) + (x + 128) mod 256" by simp
  show "(x + 128) mod 256 < 256" by simp
  show "(x + 128) div 256 + (x + 128)
        = 256 * DIV255 x + ((x + 128) div 256 + (x + 128)) mod 256"
    by (simp add: DIV255_def Let_def)
  show "((x + 128) div 256 + (x + 128)) mod 256 < 256" by simp
qed

lemma DIV255_round:
  assumes "x \<le> 65407"
  shows "x \<le> 255 * DIV255 x + 128" and "255 * DIV255 x \<le> x + 127"
proof -
  obtain q1 r1 r2 where
    1: "x + 128 = 256 * q1 + r1" and 2: "r1 < 256"
    and 3: "q1 + (x + 128) = 256 * DIV255 x + r2" and 4: "r2 < 256"
    by (rule DIV255_split)
  show "255 * DIV255 x \<le> x + 127" using 1 3 by linarith
  show "x \<le> 255 * DIV255 x + 128" using assms 1 2 3 4 by linarith
qed

lemma DIV255_255:
  assumes "a \<le> 255"
  shows "DIV255 (a * 255) = a"
proof -
  have x: "a * 255 \<le> 65407" using assms by simp
  have "a * 255 \<le> 255 * DIV255 (a * 255) + 128" "255 * DIV255 (a * 255) \<le> a * 255 + 127"
    using DIV255_round [OF x] by simp_all
  then show ?thesis by linarith
qed

lemma BLEND_0: "a \<le> 255 \<Longrightarrow> BLEND 0 a b = a"
  by (simp add: BLEND_def DIV255_255)

lemma BLEND_255: "b \<le> 255 \<Longrightarrow> BLEND 255 a b = b"
  by (simp add: BLEND_def DIV255_255)

lemma BLEND_254:
  assumes "a \<le> 255" "b \<le> 255"
  shows "BLEND 254 a b \<le> b + 1" and "b \<le> BLEND 254 a b + 1"
proof -
  have e: "BLEND 254 a b = DIV255 (a + b * 254)" by (simp add: BLEND_def)
  have x: "a + b * 254 \<le> 65407" using assms by simp
  have r: "a + b * 254 \<le> 255 * DIV255 (a + b * 254) + 128"
    "255 * DIV255 (a + b * 254) \<le> a + b * 254 + 127"
    using DIV255_round [OF x] by simp_all
  show "BLEND 254 a b \<le> b + 1" unfolding e using r(2) assms by linarith
  show "b \<le> BLEND 254 a b + 1" unfolding e using r(1) assms by linarith
qed

lemma mask_value_0: "mask_value 0 h = 0"
  by (simp add: mask_value_def fl_def py_int_def)

lemma gradient_pixel:
  assumes "0 \<le> x" "x < w" "0 \<le> y" "y < h"
  shows "pixel_at cover \<lparr>mode = RGB, width = w, height = h,
            data = map (\<lambda>m. blend_rgb m c1 c2) (mask_data w h), drawn = []\<rparr> x y
         = Some (blend_rgb (mask_value y h) c1 c2)"
proof -
  have i: "nat (y * w + x) = nat y * nat w + nat x"
    using assms by (simp add: nat_add_distrib nat_mult_distrib)
  have xn: "nat x < nat w" and yn: "nat y < nat h" using assms by simp_all
  have "nat y * nat w + nat x < Suc (nat y) * nat w" using xn by simp
  also have "\<dots> \<le> nat h * nat w"
  proof (rule mult_le_mono1)
    from yn show "Suc (nat y) \<le> nat h" by (rule Suc_leI)
  qed
  finally have b: "nat y * nat w + nat x < nat h * nat w" .
  have "mask_data w h ! (nat y * nat w + nat x) = mask_value (int (nat y)) h"
    unfolding mask_data_concat using xn yn by (rule nth_concat_replicate)
  then have m: "mask_data w h ! (nat y * nat w + nat x) = mask_value y h"
    using assms by simp
  show ?thesis
    using assms b by (simp add: pixel_at_def i length_mask_data m)
qed

lemma mask_bounds:
  assumes "0 \<le> y" "y < h" "h \<le> 2 ^ 43"
  shows "int (mask_value y h) * h \<le> 255 * y \<and> 255 * y \<le> (int (mask_value y h) + 1) * h"
proof (cases "y = 0")
  case True
  with assms show ?thesis by (simp add: mask_value_0)
next
  case False
  define Y :: rat where "Y = of_int y"
  define H :: rat where "H = of_int h"
  define t where "t = Y / H"
  define s where "s = 255 * fl t"
  define M where "M = \<lfloor>fl s\<rfloor>"
  have Ypos: "0 < Y" using False assms(1) by (simp add: Y_def)
  have Hpos: "0 < H" using assms(1,2) by (simp add: H_def)
  have "y \<le> 2 ^ 43" using assms(2,3) by linarith
  then have "(of_int y :: rat) \<le> of_int (2 ^ 43)" by (simp only: of_int_le_iff)
  then have Ybig: "Y \<le> 8796093022208" by (simp add: Y_def)
  have tH: "t * H = Y" using Hpos by (simp add: t_def)
  have tpos: "0 < t" using Ypos Hpos by (simp add: t_def)
  have p: "(2::rat) ^ 53 = 9007199254740992" by simp
  have ft: "t - t / 9007199254740992 \<le> fl t" "fl t \<le> t + t / 9007199254740992"
    using fl_error [OF tpos] by (simp_all only: p)
  have spos: "0 < s" using ft(1) tpos unfolding s_def by linarith
  have fs: "s - s / 9007199254740992 \<le> fl s" "fl s \<le> s + s / 9007199254740992"
    using fl_error [OF spos] by (simp_all only: p)
  have M1: "of_int M \<le> fl s" and M2: "fl s < of_int M + 1"
    unfolding M_def by linarith+
  have up: "of_int M \<le> 255 * t + t / 17592186044416"
    using M1 fs(2) ft(2) tpos unfolding s_def by linarith
  have low: "255 * t - t / 17592186044416 < of_int M + 1"
    using M2 fs(1) ft(1) tpos unfolding s_def by linarith
  have e1: "(255 * t + t / 17592186044416) * H = 255 * (t * H) + (t * H) / 17592186044416"
    by (simp add: distrib_right)
  have e2: "(255 * t - t / 17592186044416) * H = 255 * (t * H) - (t * H) / 17592186044416"
    by (simp add: left_diff_distrib)
  have "of_int M * H \<le> (255 * t + t / 17592186044416) * H"
    using up Hpos by (simp only: mult_le_cancel_right_pos)
  then have "of_int M * H \<le> 255 * Y + Y / 17592186044416" by (simp only: e1 tH)
  then have "of_int M * H < 255 * Y + 1" using Ybig by linarith
  then have "(of_int (M * h) :: rat) < of_int (255 * y + 1)" by (simp add: Y_def H_def)
  then have "M * h < 255 * y + 1" by (simp only: of_int_less_iff)
  then have u: "M * h \<le> 255 * y" by simp
  have "(255 * t - t / 17592186044416) * H < (of_int M + 1) * H"
    using low Hpos by (simp only: mult_less_cancel_right_pos)
  then have "255 * Y - Y / 17592186044416 < (of_int M + 1) * H" by (simp only: e2 tH)
  then have "255 * Y - 1 < (of_int M + 1) * H" using Ybig Ypos by linarith
  then have "(of_int (255 * y - 1) :: rat) < of_int ((M + 1) * h)" by (simp add: Y_def H_def)
  then have "255 * y - 1 < (M + 1) * h" by (simp only: of_int_less_iff)
  then have l: "255 * y \<le> (M + 1) * h" by simp
  have "0 \<le> fl s" using fs(1) spos by linarith
  then have M0: "0 \<le> M" and py: "py_int (fl s) = M"
    by (simp_all add: M_def py_int_def)
  have "mask_value y h = nat M"
    using py by (simp add: mask_value_def float_of_int_255 s_def t_def Y_def H_def)
  with M0 u l show ?thesis by simp
qed

lemma mask_le_254:
  assumes "0 \<le> y" "y < h" "h \<le> 2 ^ 43"
  shows "mask_value y h \<le> 254"
proof -
  have "int (mask_value y h) * h \<le> 255 * y" using mask_bounds [OF assms] by simp
  also have "\<dots> < 255 * h" using assms(2) by simp
  finally have "int (mask_value y h) < 255" using assms(1,2) by simp
  then show ?thesis by simp
qed

lemma mask_value_last:
  assumes "256 \<le> h" "h \<le> 2 ^ 43"
  shows "mask_value (h - 1) h = 254"
proof -
  have r: "0 \<le> h - 1" "h - 1 < h" using assms(1) by simp_all
  have "255 * (h - 1) \<le> (int (mask_value (h - 1) h) + 1) * h"
    using mask_bounds [OF r assms(2)] by simp
  moreover have "mask_value (h - 1) h \<le> 254" using r assms(2) by (rule mask_le_254)
  ultimately show ?thesis
  proof -
    assume a: "255 * (h - 1) \<le> (int (mask_value (h - 1) h) + 1) * h"
      and b: "mask_value (h - 1) h \<le> 254"
    have "\<not> mask_value (h - 1) h \<le> 253"
    proof
      assume "mask_value (h - 1) h \<le> 253"
      then have "int (mask_value (h - 1) h) + 1 \<le> 254" by simp
      then have "(int (mask_value (h - 1) h) + 1) * h \<le> 254 * h"
        using assms(1) by (intro mult_right_mono) simp_all
      with a assms(1) show False by simp
    qed
    with b show ?thesis by simp
  qed
qed

lemma mask_value_generated:
  "mask_value 119 120 = 252" "mask_value 179 180 = 253" "mask_value 1023 1024 = 254"
proof -
  have b: "(120::int) \<le> 2 ^ 43" "(180::int) \<le> 2 ^ 43" "(1024::int) \<le> 2 ^ 43" by simp_all
  have "int (mask_value 119 120) * 120 \<le> 255 * 119
      \<and> 255 * 119 \<le> (int (mask_value 119 120) + 1) * 120"
    by (rule mask_bounds) (simp_all add: b)
  then show "mask_value 119 120 = 252" by simp
  have "int (mask_value 179 180) * 180 \<le> 255 * 179
      \<and> 255 * 179 \<le> (int (mask_value 179 180) + 1) * 180"
    by (rule mask_bounds) (simp_all add: b)
  then show "mask_value 179 180 = 253" by simp
  have "int (mask_value 1023 1024) * 1024 \<le> 255 * 1023
      \<and> 255 * 1023 \<le> (int (mask_value 1023 1024) + 1) * 1024"
    by (rule mask_bounds) (simp_all add: b)
  then show "mask_value 1023 1024 = 254" by simp
qed

lemma BLEND_round:
  assumes "m \<le> 255" "a \<le> 255" "b \<le> 255"
  shows "a * (255 - m) + b * m \<le> 255 * BLEND m a b + 128
       \<and> 255 * BLEND m a b \<le> a * (255 - m) + b * m + 127"
proof -
  have "a * (255 - m) \<le> 255 * (255 - m)" using assms(2) by (rule mult_le_mono1)
  moreover have "b * m \<le> 255 * m" using assms(3) by (rule mult_le_mono1)
  moreover have "255 * (255 - m) + 255 * m = 255 * 255"
    using assms(1) by (simp flip: add_mult_distrib2)
  ultimately have "a * (255 - m) + b * m \<le> 65407" by linarith
  then show ?thesis
    unfolding BLEND_def using DIV255_round by blast
qed

lemma BLEND_close:
  assumes "252 \<le> m" "m \<le> 255" "a \<le> 255" "b \<le> 255" "a \<le> b + 127" "b \<le> a + 127"
  shows "BLEND m a b \<le> b + 1 \<and> b \<le> BLEND m a b + 1"
proof -
  have r: "a * (255 - m) + b * m \<le> 255 * BLEND m a b + 128"
    "255 * BLEND m a b \<le> a * (255 - m) + b * m + 127"
    using BLEND_round [OF assms(2-4)] by simp_all
  from assms(1,2) consider "m = 252" | "m = 253" | "m = 254" | "m = 255" by linarith
  then show ?thesis
  proof cases
    case 1
    with r assms(3-6) show ?thesis by simp
  next
    case 2
    with r assms(3-6) show ?thesis by simp
  next
    case 3
    with r assms(3-6) show ?thesis by simp
  next
    case 4
    with r assms(3-6) show ?thesis by simp
  qed
qed

lemma gradient_image:
  assumes "0 \<le> w" "0 \<le> h"
    and "r1 \<le> 255" "g1 \<le> 255" "b1 \<le> 255" "r2 \<le> 255" "g2 \<le> 255" "b2 \<le> 255"
  shows "create_gradient w h (r1, g1, b1) (r2, g2, b2) =
    Inr \<lparr>mode = RGB, width = w, height = h,
         data = map (\<lambda>m. blend_rgb m (r1, g1, b1) (r2, g2, b2)) (mask_data w h), drawn = []\<rparr>"
  using assms by (simp add: create_gradient_eq CLIP8_def)

lemma gradient_rows_general:
  assumes "0 \<le> x" "x < w" "0 \<le> y" "y < h" "h \<le> 2 ^ 43"
    and "r1 \<le> 255" "g1 \<le> 255" "b1 \<le> 255" "r2 \<le> 255" "g2 \<le> 255" "b2 \<le> 255"
  shows "\<exists>img m r g b l.
      create_gradient w h (r1, g1, b1) (r2, g2, b2) = Inr img \<and> width img = w \<and> height img = h
    \<and> m = mask_value y h \<and> int m * h \<le> 255 * y \<and> 255 * y \<le> (int m + 1) * h
    \<and> pixel_at cover img x y = Some (r, g, b)
    \<and> r1 * (255 - m) + r2 * m \<le> 255 * r + 128 \<and> 255 * r \<le> r1 * (255 - m) + r2 * m + 127
    \<and> g1 * (255 - m) + g2 * m \<le> 255 * g + 128 \<and> 255 * g \<le> g1 * (255 - m) + g2 * m + 127
    \<and> b1 * (255 - m) + b2 * m \<le> 255 * b + 128 \<and> 255 * b \<le> b1 * (255 - m) + b2 * m + 127
    \<and> pixel_at cover img x 0 = Some (r1, g1, b1)
    \<and> l = mask_value (h - 1) h \<and> int l * h \<le> 255 * (h - 1) \<and> 255 * (h - 1) \<le> (int l + 1) * h
    \<and> pixel_at cover img x (h - 1) = Some (BLEND l r1 r2, BLEND l g1 g2, BLEND l b1 b2)
    \<and> (h < 256 \<or> BLEND l r1 r2 \<le> r2 + 1 \<and> r2 \<le> BLEND l r1 r2 + 1
                  \<and> BLEND l g1 g2 \<le> g2 + 1 \<and> g2 \<le> BLEND l g1 g2 + 1
                  \<and> BLEND l b1 b2 \<le> b2 + 1 \<and> b2 \<le> BLEND l b1 b2 + 1)"
proof -
  define img where "img = \<lparr>mode = RGB, width = w, height = h,
      data = map (\<lambda>m. blend_rgb m (r1, g1, b1) (r2, g2, b2)) (mask_data w h), drawn = []\<rparr>"
  define m where "m = mask_value y h"
  define l where "l = mask_value (h - 1) h"
  have w: "0 \<le> w" and h: "0 \<le> h" and h0: "0 < h" using assms(1-4) by simp_all
  have hl: "0 \<le> h - 1" "h - 1 < h" using h0 by simp_all
  have c: "create_gradient w h (r1, g1, b1) (r2, g2, b2) = Inr img"
    unfolding img_def using w h assms(6-11) by (rule gradient_image)
  have wh: "width img = w" "height img = h" by (simp_all add: img_def)
  have mb: "int m * h \<le> 255 * y" "255 * y \<le> (int m + 1) * h"
    using mask_bounds [OF assms(3-5)] by (simp_all add: m_def)
  have lb: "int l * h \<le> 255 * (h - 1)" "255 * (h - 1) \<le> (int l + 1) * h"
    using mask_bounds [OF hl assms(5)] by (simp_all add: l_def)
  have m255: "m \<le> 255" using mask_le_254 [OF assms(3-5)] by (simp add: m_def)
  have "pixel_at cover img x y = Some (blend_rgb m (r1, g1, b1) (r2, g2, b2))"
    unfolding img_def m_def using assms(1-4) by (rule gradient_pixel)
  then have py: "pixel_at cover img x y = Some (BLEND m r1 r2, BLEND m g1 g2, BLEND m b1 b2)"
    by simp
  have rr: "r1 * (255 - m) + r2 * m \<le> 255 * BLEND m r1 r2 + 128"
    "255 * BLEND m r1 r2 \<le> r1 * (255 - m) + r2 * m + 127"
    using BLEND_round [OF m255 assms(6,9)] by simp_all
  have rg: "g1 * (255 - m) + g2 * m \<le> 255 * BLEND m g1 g2 + 128"
    "255 * BLEND m g1 g2 \<le> g1 * (255 - m) + g2 * m + 127"
    using BLEND_round [OF m255 assms(7,10)] by simp_all
  have rb: "b1 * (255 - m) + b2 * m \<le> 255 * BLEND m b1 b2 + 128"
    "255 * BLEND m b1 b2 \<le> b1 * (255 - m) + b2 * m + 127"
    using BLEND_round [OF m255 assms(8,11)] by simp_all
  have "pixel_at cover img x 0 = Some (blend_rgb (mask_value 0 h) (r1, g1, b1) (r2, g2, b2))"
    unfolding img_def using assms(1,2) h0 by (intro gradient_pixel) simp_all
  then have p0: "pixel_at cover img x 0 = Some (r1, g1, b1)"
    using assms(6-8) by (simp add: mask_value_0 BLEND_0)
  have "pixel_at cover img x (h - 1) = Some (blend_rgb l (r1, g1, b1) (r2, g2, b2))"
    unfolding img_def l_def using assms(1,2) hl by (intro gradient_pixel) simp_all
  then have pl: "pixel_at cover img x (h - 1)
      = Some (BLEND l r1 r2, BLEND l g1 g2, BLEND l b1 b2)"
    by simp
  have big: "h < 256 \<or> BLEND l r1 r2 \<le> r2 + 1 \<and> r2 \<le> BLEND l r1 r2 + 1
                  \<and> BLEND l g1 g2 \<le> g2 + 1 \<and> g2 \<le> BLEND l g1 g2 + 1
                  \<and> BLEND l b1 b2 \<le> b2 + 1 \<and> b2 \<le> BLEND l b1 b2 + 1"
  proof (cases "h < 256")
    case True
    then show ?thesis by simp
  next
    case False
    then have "256 \<le> h" by simp
    then have "l = 254" unfolding l_def using assms(5) by (rule mask_value_last)
    moreover have "BLEND 254 r1 r2 \<le> r2 + 1" "r2 \<le> BLEND 254 r1 r2 + 1"
      using assms(6,9) by (rule BLEND_254)+
    moreover have "BLEND 254 g1 g2 \<le> g2 + 1" "g2 \<le> BLEND 254 g1 g2 + 1"
      using assms(7,10) by (rule BLEND_254)+
    moreover have "BLEND 254 b1 b2 \<le> b2 + 1" "b2 \<le> BLEND 254 b1 b2 + 1"
      using assms(8,11) by (rule BLEND_254)+
    ultimately show ?thesis by simp
  qed
  show ?thesis
    apply (rule exI [of _ img], rule exI [of _ m], rule exI [of _ "BLEND m r1 r2"],
        rule exI [of _ "BLEND m g1 g2"], rule exI [of _ "BLEND m b1 b2"], rule exI [of _ l])
    using c wh mb py rr rg rb p0 lb pl big
    apply (intro conjI)
    apply (simp_all add: m_def l_def)
    done
qed

lemma icon_configs_cases:
  assumes "icon_configs t = Some ((c1, c2), f)"
  shows "(c1, c2) \<in> {((100, 120, 140), (140, 160, 180)), ((70, 130, 200), (100, 180, 255)),
                       ((255, 200, 80), (255, 220, 100)), ((200, 100, 150), (230, 130, 180))}"
  using assms by (auto simp add: icon_configs_def split: if_splits)

lemma alternate_last_row:
  assumes "icon_configs t = Some (((p1, p2, p3), (q1, q2, q3)), f)"
    and "s \<in> {120, 180}" "0 \<le> x" "x < s"
  shows "\<exists>img r g b. create_gradient s s (p1, p2, p3) (q1, q2, q3) = Inr img
      \<and> pixel_at cover img x (s - 1) = Some (r, g, b)
      \<and> r \<le> q1 + 1 \<and> q1 \<le> r + 1 \<and> g \<le> q2 + 1 \<and> q2 \<le> g + 1 \<and> b \<le> q3 + 1 \<and> q3 \<le> b + 1"
proof -
  define l where "l = mask_value (s - 1) s"
  have l: "252 \<le> l" "l \<le> 255"
    using assms(2) by (auto simp add: l_def mask_value_generated)
  have ch: "p1 \<le> 255" "p2 \<le> 255" "p3 \<le> 255" "q1 \<le> 255" "q2 \<le> 255" "q3 \<le> 255"
    "p1 \<le> q1 + 127" "q1 \<le> p1 + 127" "p2 \<le> q2 + 127" "q2 \<le> p2 + 127"
    "p3 \<le> q3 + 127" "q3 \<le> p3 + 127"
    using icon_configs_cases [OF assms(1)] by auto
  have s: "0 \<le> s" "0 \<le> s - 1" "s - 1 < s" using assms(2) by auto
  have c: "create_gradient s s (p1, p2, p3) (q1, q2, q3) =
    Inr \<lparr>mode = RGB, width = s, height = s,
         data = map (\<lambda>m. blend_rgb m (p1, p2, p3) (q1, q2, q3)) (mask_data s s), drawn = []\<rparr>"
    using s(1) s(1) ch(1-6) by (rule gradient_image)
  have "pixel_at cover \<lparr>mode = RGB, width = s, height = s,
         data = map (\<lambda>m. blend_rgb m (p1, p2, p3) (q1, q2, q3)) (mask_data s s), drawn = []\<rparr>
         x (s - 1) = Some (blend_rgb (mask_value (s - 1) s) (p1, p2, p3) (q1, q2, q3))"
    using assms(3,4) s(2,3) by (rule gradient_pixel)
  then have p: "pixel_at cover \<lparr>mode = RGB, width = s, height = s,
         data = map (\<lambda>m. blend_rgb m (p1, p2, p3) (q1, q2, q3)) (mask_data s s), drawn = []\<rparr>
         x (s - 1) = Some (BLEND l p1 q1, BLEND l p2 q2, BLEND l p3 q3)"
    by (simp add: l_def)
  have "BLEND l p1 q1 \<le> q1 + 1 \<and> q1 \<le> BLEND l p1 q1 + 1"
    using l ch(1,4,7,8) by (rule BLEND_close)
  moreover have "BLEND l p2 q2 \<le> q2 + 1 \<and> q2 \<le> BLEND l p2 q2 + 1"
    using l ch(2,5,9,10) by (rule BLEND_close)
  moreover have "BLEND l p3 q3 \<le> q3 + 1 \<and> q3 \<le> BLEND l p3 q3 + 1"
    using l ch(3,6,11,12) by (rule BLEND_close)
  ultimately show ?thesis using c p by simp
qed

lemma primary_last_row:
  assumes "0 \<le> x" "x < 1024"
  shows "\<exists>img. create_gradient 1024 1024 (124, 58, 237) (167, 85, 255) = Inr img
      \<and> pixel_at cover img x (1024 - 1) = Some (167, 85, 255)"
proof -
  have s: "(0::int) \<le> 1024" "(0::int) \<le> 1024 - 1" "(1024::int) - 1 < 1024" by simp_all
  have ch: "(124::nat) \<le> 255" "(58::nat) \<le> 255" "(237::nat) \<le> 255"
    "(167::nat) \<le> 255" "(85::nat) \<le> 255" "(255::nat) \<le> 255" by simp_all
  have c: "create_gradient 1024 1024 (124, 58, 237) (167, 85, 255) =
    Inr \<lparr>mode = RGB, width = 1024, height = 1024,
         data = map (\<lambda>m. blend_rgb m (124, 58, 237) (167, 85, 255)) (mask_data 1024 1024),
         drawn = []\<rparr>"
    using s(1) s(1) ch by (rule gradient_image)
  have "pixel_at cover \<lparr>mode = RGB, width = 1024, height = 1024,
         data = map (\<lambda>m. blend_rgb m (124, 58, 237) (167, 85, 255)) (mask_data 1024 1024),
         drawn = []\<rparr> x (1024 - 1)
       = Some (blend_rgb (mask_value (1024 - 1) 1024) (124, 58, 237) (167, 85, 255))"
    using assms s(2,3) by (rule gradient_pixel)
  also have "\<dots> = Some (167, 85, 255)"
    by (simp add: mask_value_generated BLEND_def DIV255_def)
  finally show ?thesis using c by simp
qed

section \<open>Facts about the waveform\<close>

lemma float_floordiv_2:
  "float_floordiv (fl (float_of_int s * r)) 2 = fl (of_int (half_bar s r))"
  by (simp add: float_floordiv_def half_bar_def)

lemma half_bar_half:
  assumes "0 \<le> s" "s < 2 ^ 53"
  shows "half_bar s (fl (5 / 10)) = s div 4"
proof -
  have a: "\<bar>s\<bar> < 2 ^ 53" using assms by simp
  have "fl (of_int s * pow2 (- 1)) = of_int s * pow2 (- 1)" using a by (rule fl_representable)
  then have e: "fl (of_int s / 2) = of_int s / 2" by (simp add: pow2_def)
  have "half_bar s (fl (5 / 10)) = \<lfloor>fl (of_int s / 2) / 2\<rfloor>"
    using a by (simp add: half_bar_def float_of_int_exact fl_half)
  also have "\<dots> = \<lfloor>(of_int s :: rat) / 2 / 2\<rfloor>" by (simp only: e)
  also have "\<dots> = \<lfloor>(of_int s :: rat) / of_int 4\<rfloor>" by simp
  also have "\<dots> = s div 4" by (rule floor_divide_of_int_eq)
  finally show ?thesis .
qed

lemma half_bar_one:
  assumes "0 \<le> s" "s < 2 ^ 53"
  shows "half_bar s (fl (10 / 10)) = s div 2"
proof -
  have a: "\<bar>s\<bar> < 2 ^ 53" using assms by simp
  have "half_bar s (fl (10 / 10)) = \<lfloor>(of_int s :: rat) / of_int 2\<rfloor>"
    using a fl_of_int [of 1] by (simp add: half_bar_def float_of_int_exact fl_of_int)
  also have "\<dots> = s div 2" by (rule floor_divide_of_int_eq)
  finally show ?thesis .
qed

lemma half_bar_7:
  assumes "0 \<le> s" "s \<le> 2 ^ 40"
  shows "0 \<le> half_bar s (fl (7 / 10)) \<and> 20 * half_bar s (fl (7 / 10)) \<le> 7 * s
    \<and> 7 * s \<le> 20 * half_bar s (fl (7 / 10)) + 20"
proof (cases "s = 0")
  case True
  then show ?thesis by (simp add: half_bar_def float_of_int_def fl_def)
next
  case False
  define S :: rat where "S = of_int s"
  define a where "a = fl (7 / 10)"
  define q where "q = S * a"
  define M where "M = \<lfloor>fl q / 2\<rfloor>"
  have Spos: "0 < S" using False assms(1) by (simp add: S_def)
  have "(of_int s :: rat) \<le> of_int (2 ^ 40)" using assms(2) by (simp only: of_int_le_iff)
  then have Sbig: "S \<le> 1099511627776" by (simp add: S_def)
  have p: "(2::rat) ^ 53 = 9007199254740992" by simp
  have fa: "7 / 10 - 7 / 10 / 9007199254740992 \<le> a" "a \<le> 7 / 10 + 7 / 10 / 9007199254740992"
    using fl_error [of "7 / 10"] by (simp_all only: p a_def)
  have apos: "0 < a" using fa(1) by simp
  have qpos: "0 < q" using Spos apos by (simp add: q_def)
  have fq: "q - q / 9007199254740992 \<le> fl q" "fl q \<le> q + q / 9007199254740992"
    using fl_error [OF qpos] by (simp_all only: p)
  have qa: "S * (7 / 10 - 7 / 10 / 9007199254740992) \<le> q"
    "q \<le> S * (7 / 10 + 7 / 10 / 9007199254740992)"
    unfolding q_def using fa Spos by (simp_all only: mult_le_cancel_left_pos)
  have M1: "of_int M \<le> fl q / 2" and M2: "fl q / 2 < of_int M + 1"
    unfolding M_def by linarith+
  have "0 \<le> fl q / 2" using fq(1) qpos by linarith
  then have n: "0 \<le> M" unfolding M_def by simp
  have "20 * of_int M < 7 * S + 1" using M1 fq(2) qa(2) Sbig Spos by simp
  then have "(of_int (20 * M) :: rat) < of_int (7 * s + 1)" by (simp add: S_def)
  then have "20 * M < 7 * s + 1" by (simp only: of_int_less_iff)
  then have u: "20 * M \<le> 7 * s" by simp
  have "7 * S - 1 < 20 * of_int M + 20" using M2 fq(1) qa(1) Sbig Spos by simp
  then have "(of_int (7 * s - 1) :: rat) < of_int (20 * M + 20)" by (simp add: S_def)
  then have "7 * s - 1 < 20 * M + 20" by (simp only: of_int_less_iff)
  then have l: "7 * s \<le> 20 * M + 20" by simp
  have "\<bar>s\<bar> < 2 ^ 53" using assms by simp
  then have "half_bar s (fl (7 / 10)) = M"
    by (simp add: half_bar_def float_of_int_exact M_def q_def S_def a_def)
  with n u l show ?thesis by simp
qed

lemma waveform_bar_eq:
  assumes "\<bar>y\<bar> \<le> 2 ^ 40" "0 \<le> half_bar s r" "half_bar s r \<le> 2 ^ 40"
  shows "waveform_bar s col (x, y, r) =
    rounded_rectangle (of_int (x - s div 10 div 2)) (of_int (y - half_bar s r))
      (of_int (x + s div 10 div 2)) (of_int (y + half_bar s r)) (s div 10 div 2) col None"
proof -
  have 1: "\<bar>half_bar s r\<bar> < 2 ^ 53" "\<bar>y\<bar> < 2 ^ 53"
    "\<bar>y - half_bar s r\<bar> < 2 ^ 53" "\<bar>y + half_bar s r\<bar> < 2 ^ 53"
    using assms by simp_all
  have f1: "fl (of_int (half_bar s r)) = of_int (half_bar s r)" using 1(1) by (rule fl_of_int)
  have f2: "float_of_int y = of_int y" using 1(2) by (rule float_of_int_exact)
  have f3: "fl (of_int (y - half_bar s r)) = of_int (y - half_bar s r)"
    using 1(3) by (rule fl_of_int)
  have f4: "fl (of_int (y + half_bar s r)) = of_int (y + half_bar s r)"
    using 1(4) by (rule fl_of_int)
  have t: "fl (float_of_int y - float_floordiv (fl (float_of_int s * r)) 2)
      = of_int (y - half_bar s r)"
    unfolding float_floordiv_2 f1 f2 using f3 by simp
  have b: "fl (float_of_int y + float_floordiv (fl (float_of_int s * r)) 2)
      = of_int (y + half_bar s r)"
    unfolding float_floordiv_2 f1 f2 using f4 by simp
  show ?thesis
    unfolding waveform_bar_def Let_def prod.case t b ..
qed

lemma draw_waveform_eq:
  assumes "0 \<le> s" "s \<le> 2 ^ 40" "\<bar>cy\<bar> \<le> 2 ^ 40"
  shows "draw_waveform cx cy s col =
    map (\<lambda>(k, hh). rounded_rectangle
           (of_int (cx + k * (s div 10 + s div 12) - s div 10 div 2)) (of_int (cy - hh))
           (of_int (cx + k * (s div 10 + s div 12) + s div 10 div 2)) (of_int (cy + hh))
           (s div 10 div 2) col None)
      [(- 2, s div 4), (- 1, half_bar s (fl (7 / 10))), (0, s div 2),
       (1, half_bar s (fl (7 / 10))), (2, s div 4)]"
proof -
  have s53: "s < 2 ^ 53" using assms(2) by simp
  have h5: "half_bar s (fl (5 / 10)) = s div 4" using assms(1) s53 by (rule half_bar_half)
  have h10: "half_bar s (fl (10 / 10)) = s div 2" using assms(1) s53 by (rule half_bar_one)
  have h7: "0 \<le> half_bar s (fl (7 / 10))" "20 * half_bar s (fl (7 / 10)) \<le> 7 * s"
    using half_bar_7 [OF assms(1,2)] by simp_all
  have b5: "0 \<le> half_bar s (fl (5 / 10))" "half_bar s (fl (5 / 10)) \<le> 2 ^ 40"
    unfolding h5 using assms(1,2) by simp_all
  have b10: "0 \<le> half_bar s (fl (10 / 10))" "half_bar s (fl (10 / 10)) \<le> 2 ^ 40"
    unfolding h10 using assms(1,2) by simp_all
  have b7: "0 \<le> half_bar s (fl (7 / 10))" "half_bar s (fl (7 / 10)) \<le> 2 ^ 40"
    using assms(1,2) h7 by simp_all
  have e5: "waveform_bar s col (x, cy, fl (5 / 10)) =
      rounded_rectangle (of_int (x - s div 10 div 2)) (of_int (cy - s div 4))
        (of_int (x + s div 10 div 2)) (of_int (cy + s div 4)) (s div 10 div 2) col None" for x
    using waveform_bar_eq [OF assms(3) b5] by (simp only: h5)
  have e10: "waveform_bar s col (x, cy, fl (10 / 10)) =
      rounded_rectangle (of_int (x - s div 10 div 2)) (of_int (cy - s div 2))
        (of_int (x + s div 10 div 2)) (of_int (cy + s div 2)) (s div 10 div 2) col None" for x
    using waveform_bar_eq [OF assms(3) b10] by (simp only: h10)
  have e7: "waveform_bar s col (x, cy, fl (7 / 10)) =
      rounded_rectangle (of_int (x - s div 10 div 2)) (of_int (cy - half_bar s (fl (7 / 10))))
        (of_int (x + s div 10 div 2)) (of_int (cy + half_bar s (fl (7 / 10))))
        (s div 10 div 2) col None" for x
    using assms(3) b7 by (rule waveform_bar_eq)
  show ?thesis
    unfolding draw_waveform_def waveform_bars_def Let_def list.map e5 e10 e7
    by (simp add: algebra_simps)
qed

lemma half_bar_7_512: "half_bar 512 (fl (7 / 10)) = 179"
proof -
  have "0 \<le> half_bar 512 (fl (7 / 10)) \<and> 20 * half_bar 512 (fl (7 / 10)) \<le> 7 * 512
      \<and> 7 * 512 \<le> 20 * half_bar 512 (fl (7 / 10)) + 20"
    by (rule half_bar_7) simp_all
  then show ?thesis by simp
qed

lemma waveform_512:
  "draw_waveform 512 512 512 col =
    [rounded_rectangle 301 384 351 640 25 col None,
     rounded_rectangle 394 333 444 691 25 col None,
     rounded_rectangle 487 256 537 768 25 col None,
     rounded_rectangle 580 333 630 691 25 col None,
     rounded_rectangle 673 384 723 640 25 col None]"
proof -
  have "draw_waveform 512 512 512 col =
    map (\<lambda>(k, hh). rounded_rectangle
           (of_int (512 + k * (512 div 10 + 512 div 12) - 512 div 10 div 2)) (of_int (512 - hh))
           (of_int (512 + k * (512 div 10 + 512 div 12) + 512 div 10 div 2)) (of_int (512 + hh))
           (512 div 10 div 2) col None)
      [(- 2, 512 div 4), (- 1, half_bar 512 (fl (7 / 10))), (0, 512 div 2),
       (1, half_bar 512 (fl (7 / 10))), (2, 512 div 4)]"
    by (rule draw_waveform_eq) simp_all
  then show ?thesis by (simp add: half_bar_7_512)
qed

section \<open>Facts about the frame of the draw calls\<close>







lemma create_app_icon_result:
  assumes "0 < s" "p \<noteq> []" "p \<notin> dirs w"
    and "os_path_dirname p = [] \<or> os_path_dirname p \<in> dirs w"
  shows "create_app_icon p s w =
    Inr (print (Created_app_icon p)
      (w\<lparr>files := (files w)(p \<mapsto>
         draw_on \<lparr>mode = RGB, width = s, height = s,
                   data = map (\<lambda>m. blend_rgb m (124, 58, 237) (167, 85, 255)) (mask_data s s),
                   drawn = []\<rparr>
           (draw_waveform (s div 2) (s div 2) (s div 2) (RGB3 255 255 255)))\<rparr>))"
proof -
  have "create_gradient s s (124, 58, 237) (167, 85, 255) =
    Inr \<lparr>mode = RGB, width = s, height = s,
         data = map (\<lambda>m. blend_rgb m (124, 58, 237) (167, 85, 255)) (mask_data s s), drawn = []\<rparr>"
    using assms(1) by (intro gradient_image) simp_all
  then show ?thesis
    using assms by (simp add: create_app_icon_def save_def Let_def draw_on_fields)
qed

section \<open>Facts about the symmetry of the glyphs\<close>

lemma waveform_symmetric:
  assumes "0 \<le> s" "s \<le> 2 ^ 40" "\<bar>cy\<bar> \<le> 2 ^ 40"
  shows "symmetric_about (of_int cx) (draw_waveform cx cy s col)"
  unfolding draw_waveform_eq [OF assms] symmetric_about_def
  by (simp add: rounded_rectangle_def)

lemma wellness_symmetric:
  "symmetric_about (of_int cx) (draw_wellness_icon cx cy s col)"
  unfolding draw_wellness_icon_def symmetric_about_def Let_def
  by (auto simp add: ellipse_def polygon_def rectangle_def algebra_simps)

lemma weather_disks_symmetric:
  "symmetric_about (of_int cx) (weather_disks cx cy s col)"
  unfolding weather_disks_def symmetric_about_def Let_def
  by (simp add: ellipse_def)

lemma calculator_buttons_symmetric:
  "symmetric_about (of_int cx + of_int (s div 7) / 2) (calculator_buttons cx cy s col)"
  unfolding calculator_buttons_def calculator_button_def symmetric_about_def Let_def
  by (simp add: rounded_rectangle_def)

lemma calculator_display_symmetric:
  "symmetric_about
     (of_int cx + of_int (py_int (fl (float_of_int s * fl (8 / 10))) mod 2) / 2)
     [calculator_display cx cy s col]"
proof -
  define dw where "dw = py_int (fl (float_of_int s * fl (8 / 10)))"
  have "dw = 2 * (dw div 2) + dw mod 2" by simp
  then have "(of_int dw :: rat) = of_int (2 * (dw div 2) + dw mod 2)" by (rule arg_cong)
  then have e: "(of_int dw :: rat) = 2 * of_int (dw div 2) + of_int (dw mod 2)"
    by (simp only: of_int_add of_int_mult of_int_numeral)
  show ?thesis
    unfolding calculator_display_def symmetric_about_def Let_def dw_def [symmetric]
    using e by (simp add: rounded_rectangle_def)
qed

lemma calculator_not_symmetric:
  assumes "7 \<le> s"
  shows "\<not> symmetric_about (of_int cx) (draw_calculator_icon cx cy s col)"
proof
  assume a: "symmetric_about (of_int cx) (draw_calculator_icon cx cy s col)"
  have "1 \<le> s div 7" "0 \<le> s div 15" using assms by simp_all
  then have "of_int 1 \<le> (of_int (s div 7) :: rat)" "of_int 0 \<le> (of_int (s div 15) :: rat)"
    by (simp_all only: of_int_le_iff)
  then have p: "1 \<le> (of_int (s div 7) :: rat)" "0 \<le> (of_int (s div 15) :: rat)" by simp_all
  have "calculator_button cx cy s col 0 2 \<in> set (draw_calculator_icon cx cy s col)"
    by (simp add: draw_calculator_icon_def calculator_buttons_def)
  with a obtain b where b: "b \<in> set (draw_calculator_icon cx cy s col)"
    and m: "same_region (mirror_shape (of_int cx) (shape (calculator_button cx cy s col 0 2)))
              (shape b)"
    and o: "outline b = outline (calculator_button cx cy s col 0 2)"
    unfolding symmetric_about_def by blast
  from b m o p show False
    by (auto simp add: draw_calculator_icon_def calculator_buttons_def calculator_button_def
        calculator_display_def rounded_rectangle_def Let_def)
qed

section \<open>The claims\<close>

text \<open>
  Claim C5. An identifier outside the configuration mapping makes \<open>create_alternate_icon\<close>
  print the ``Unknown icon type'' line and return normally; directories and files are left
  as they were, and a batch containing the identifier leaves on disk what the batch
  without it leaves, with the same exception if one is raised.
\<close>

theorem unknown_icon_type_skipped:
  assumes "icon_type \<notin> {''Calculator'', ''Weather'', ''Notes'', ''Wellness''}"
  shows "create_alternate_icon icon_type output_dir size' w
           = Inr (print (Unknown_icon_type icon_type) w)
       \<and> disk (print (Unknown_icon_type icon_type) w) = disk w
       \<and> outcome (generate_all (before @ icon_type # after) output_dir w)
           = outcome (generate_all (before @ after) output_dir w)"
proof -
  have n: "icon_configs icon_type = None" using assms by (rule icon_configs_None)
  have 1: "create_alternate_icon icon_type output_dir s v = Inr (print (Unknown_icon_type icon_type) v)"
    for s v
    by (simp add: create_alternate_icon_def n)
  have 2: "outcome (generate_all (icon_type # after) output_dir v)
             = outcome (generate_all after output_dir v)" for v
    by (simp add: 1 generate_all_disk [of "print m (print m v)" v for m] disk_print)
  have 3: "outcome (generate_all (before @ icon_type # after) output_dir w)
           = outcome (generate_all (before @ after) output_dir w)"
    by (cases "generate_all before output_dir w")
      (simp_all add: generate_all_append 2 del: generate_all.simps)
  from 1 3 show ?thesis by (simp add: disk_print)
qed

theorem unknown_icon_type_skipped_witness:
  "create_alternate_icon ''Sports'' ''VoiceIt/Icons'' 120 empty_world
     = Inr (print (Unknown_icon_type ''Sports'') empty_world)
   \<and> disk (print (Unknown_icon_type ''Sports'') empty_world) = disk empty_world
   \<and> outcome (generate_all ([''Sports''] @ ''Sports'' # [''Sports'']) ''VoiceIt/Icons'' empty_world)
       = outcome (generate_all ([''Sports''] @ [''Sports'']) ''VoiceIt/Icons'' empty_world)"
proof -
  have "''Sports'' \<notin> {''Calculator'', ''Weather'', ''Notes'', ''Wellness''}" by simp
  then show ?thesis by (rule unknown_icon_type_skipped)
qed

text \<open>
  Claim C2. When Pillow cannot be imported, both scripts stop at their module-level
  import: the ImportError is caught by no handler, the interpreter prints its trace on the
  error stream and exits with status 1. Nothing is printed on the standard output (no
  message about the missing dependency, no installation guidance), and no directory or
  file is created.
\<close>

theorem missing_pillow_uncaught:
  "generate_icon_script False w = (w\<lparr>stderr := stderr w @ [Traceback ImportError]\<rparr>, 1)
   \<and> generate_alternate_icons_script False w
       = (w\<lparr>stderr := stderr w @ [Traceback ImportError]\<rparr>, 1)"
  by (simp add: generate_icon_script_def generate_alternate_icons_script_def uncaught_def)

text \<open>
  Claim C1, as the code has it. For each of the four identifiers and each size in
  \<open>{120, 180}\<close>, \<open>create_alternate_icon\<close> on the existing directory VoiceIt/Icons writes the
  file \<open>{Identifier}@2x.png\<close> (size 120) or \<open>{Identifier}@3x.png\<close> (size 180); the image is
  exactly \<open>size' \<times> size'\<close> pixels in mode RGB, which has no alpha channel. The only way
  out is that a directory stands at the path of the file: then the save raises
  IsADirectoryError and nothing is written.
\<close>

theorem alternate_icon_file:
  assumes "icon_type \<in> {''Calculator'', ''Weather'', ''Notes'', ''Wellness''}"
    and "size' \<in> {120, 180}"
    and "''VoiceIt/Icons'' \<in> dirs w"
  shows "if ''VoiceIt/Icons/'' @ icon_type @ (if size' = 120 then ''@2x.png'' else ''@3x.png'')
            \<in> dirs w
         then create_alternate_icon icon_type ''VoiceIt/Icons'' size' w = Inl (IsADirectoryError, w)
         else (\<exists>img. create_alternate_icon icon_type ''VoiceIt/Icons'' size' w
            = Inr (print (Created_icon icon_type
                     (''VoiceIt/Icons/'' @ icon_type @ (if size' = 120 then ''@2x.png'' else ''@3x.png'')))
                (w\<lparr>files := (files w)
                   (''VoiceIt/Icons/'' @ icon_type @ (if size' = 120 then ''@2x.png'' else ''@3x.png'')
                      \<mapsto> img)\<rparr>))
          \<and> width img = size' \<and> height img = size' \<and> length (data img) = nat (size' * size')
          \<and> mode img = RGB \<and> \<not> has_alpha img)"
proof -
  let ?p = "''VoiceIt/Icons/'' @ icon_type @ (if size' = 120 then ''@2x.png'' else ''@3x.png'')"
  obtain c1 c2 f where cfg: "icon_configs icon_type = Some ((c1, c2), f)"
    using icon_configs_Some [OF assms(1)] by blast
  have s: "0 < size'" using assms(2) by auto
  have s0: "0 \<le> size'" using s by simp
  have p: "icon_path ''VoiceIt/Icons'' icon_type size' = ?p"
    using assms(1,2) by (auto simp add: icon_paths)
  have ne: "?p \<noteq> []" by simp
  have dn: "os_path_dirname (icon_path ''VoiceIt/Icons'' icon_type size') = ''VoiceIt/Icons''"
    using assms(1,2) by (auto simp add: icon_paths icon_dirnames)
  obtain g where g: "create_gradient size' size' c1 c2 = Inr g"
    and q: "mode g = RGB" "width g = size'" "height g = size'"
      "length (data g) = nat (size' * size')"
    using create_gradient_props [OF s0 s0] by blast
  show ?thesis
  proof (cases "?p \<in> dirs w")
    case True
    have "save im (icon_path ''VoiceIt/Icons'' icon_type size') w = Inl (IsADirectoryError, w)"
      for im
      unfolding p using ne True by (rule save_directory)
    then have "create_alternate_icon icon_type ''VoiceIt/Icons'' size' w
        = Inl (IsADirectoryError, w)"
      by (simp add: create_alternate_icon_save [OF cfg g])
    with True show ?thesis by simp
  next
    case False
    have nd: "icon_path ''VoiceIt/Icons'' icon_type size' \<noteq> []"
      "icon_path ''VoiceIt/Icons'' icon_type size' \<notin> dirs w"
      unfolding p using False by simp_all
    have d: "os_path_dirname (icon_path ''VoiceIt/Icons'' icon_type size') = []
        \<or> os_path_dirname (icon_path ''VoiceIt/Icons'' icon_type size') \<in> dirs w"
      using assms(3) dn by simp
    obtain g' where g': "create_gradient size' size' c1 c2 = Inr g'"
      and c: "create_alternate_icon icon_type ''VoiceIt/Icons'' size' w =
               Inr (print (Created_icon icon_type (icon_path ''VoiceIt/Icons'' icon_type size'))
                 (w\<lparr>files := (files w)(icon_path ''VoiceIt/Icons'' icon_type size' \<mapsto>
                      draw_on g' (f (size' div 2) (size' div 2)
                        (py_int (fl (float_of_int size' * fl (5 / 10)))) (RGBA4 255 255 255 255)))\<rparr>))"
      using create_alternate_icon_eq [OF s cfg nd d] by blast
    from g g' have "g' = g" by simp
    with q c have "\<exists>img. create_alternate_icon icon_type ''VoiceIt/Icons'' size' w
            = Inr (print (Created_icon icon_type ?p) (w\<lparr>files := (files w)(?p \<mapsto> img)\<rparr>))
          \<and> width img = size' \<and> height img = size' \<and> length (data img) = nat (size' * size')
          \<and> mode img = RGB \<and> \<not> has_alpha img"
      unfolding p
      by (intro exI [of _ "draw_on g (f (size' div 2) (size' div 2)
            (py_int (fl (float_of_int size' * fl (5 / 10)))) (RGBA4 255 255 255 255))"])
        (simp add: draw_on_fields has_alpha_def)
    with False show ?thesis by simp
  qed
qed

theorem alternate_icon_file_witness:
  "\<exists>img. create_alternate_icon ''Calculator'' ''VoiceIt/Icons'' 120
            (empty_world\<lparr>dirs := {''VoiceIt/Icons''}\<rparr>)
            = Inr (print (Created_icon ''Calculator'' ''VoiceIt/Icons/Calculator@2x.png'')
                (empty_world\<lparr>dirs := {''VoiceIt/Icons''},
                   files := (files empty_world)(''VoiceIt/Icons/Calculator@2x.png'' \<mapsto> img)\<rparr>))
          \<and> width img = 120 \<and> height img = 120 \<and> length (data img) = 14400
          \<and> mode img = RGB \<and> \<not> has_alpha img"
proof -
  have 1: "''Calculator'' \<in> {''Calculator'', ''Weather'', ''Notes'', ''Wellness''}" by simp
  have 2: "(120::int) \<in> {120, 180}" by simp
  have 3: "''VoiceIt/Icons'' \<in> dirs (empty_world\<lparr>dirs := {''VoiceIt/Icons''}\<rparr>)" by simp
  from alternate_icon_file [OF 1 2 3] show ?thesis by simp
qed

text \<open>
  Claim C1 as stated fails: the file written for ``Calculator'' at size 120 has no alpha
  channel.
\<close>

theorem alternate_icon_no_alpha:
  "\<not> (\<exists>w' img. create_alternate_icon ''Calculator'' ''VoiceIt/Icons'' 120
                   (empty_world\<lparr>dirs := {''VoiceIt/Icons''}\<rparr>) = Inr w'
         \<and> files w' ''VoiceIt/Icons/Calculator@2x.png'' = Some img \<and> has_alpha img)"
proof -
  let ?w = "empty_world\<lparr>dirs := {''VoiceIt/Icons''}\<rparr>"
  have cfg: "icon_configs ''Calculator''
      = Some (((100, 120, 140), (140, 160, 180)), draw_calculator_icon)"
    by (simp add: icon_configs_def)
  have s: "(0::int) < 120" and s0: "(0::int) \<le> 120" by simp_all
  have nd: "icon_path ''VoiceIt/Icons'' ''Calculator'' 120 \<noteq> []"
    "icon_path ''VoiceIt/Icons'' ''Calculator'' 120 \<notin> dirs ?w"
    by (simp_all add: icon_paths)
  have d: "os_path_dirname (icon_path ''VoiceIt/Icons'' ''Calculator'' 120) = []
      \<or> os_path_dirname (icon_path ''VoiceIt/Icons'' ''Calculator'' 120) \<in> dirs ?w"
    by (simp add: icon_paths icon_dirnames)
  obtain g where g: "create_gradient 120 120 (100, 120, 140) (140, 160, 180) = Inr g"
    and c: "create_alternate_icon ''Calculator'' ''VoiceIt/Icons'' 120 ?w =
               Inr (print (Created_icon ''Calculator'' (icon_path ''VoiceIt/Icons'' ''Calculator'' 120))
                 (?w\<lparr>files := (files ?w)(icon_path ''VoiceIt/Icons'' ''Calculator'' 120 \<mapsto>
                      draw_on g (draw_calculator_icon (120 div 2) (120 div 2)
                        (py_int (fl (float_of_int 120 * fl (5 / 10)))) (RGBA4 255 255 255 255)))\<rparr>))"
    using create_alternate_icon_eq [OF s cfg nd d] by blast
  obtain g' where "create_gradient 120 120 (100, 120, 140) (140, 160, 180) = Inr g'"
    and q: "mode g' = RGB"
    using create_gradient_props [OF s0 s0] by blast
  with g have "mode g = RGB" by simp
  then show ?thesis
    unfolding c icon_paths
    by (auto simp add: print_def draw_on_fields has_alpha_def)
qed

text \<open>
  Claim C9. Run where the asset directory is missing, generate\_icon.py fails in the save
  with FileNotFoundError; its handler prints ``Error: ...'' and the Pillow installation
  hint, logs no stack trace (the error stream is untouched) and the script exits with
  status 0. generate\_alternate\_icons.py, run where VoiceIt/Icons is a regular file,
  fails in \<open>os.makedirs\<close> with FileExistsError; its handler prints ``Error: ...'' and logs
  the stack trace, status 0.
\<close>

theorem generate_icon_logs_no_trace:
  assumes "''VoiceIt/Assets.xcassets/AppIcon.appiconset'' \<notin> dirs w"
    and "''VoiceIt/Assets.xcassets/AppIcon.appiconset/icon-1024.png'' \<notin> dirs w"
    and "''VoiceIt/Icons'' \<in> dom (files v)"
  shows "generate_icon_script True w
           = (w\<lparr>stdout := stdout w @
                 [Error FileNotFoundError, To_fix_install_Pillow, Pip3_install_Pillow]\<rparr>, 0)
       \<and> generate_alternate_icons_script True v
           = (v\<lparr>stdout := stdout v @ [Error FileExistsError],
                 stderr := stderr v @ [Traceback FileExistsError]\<rparr>, 0)"
proof (rule conjI)
  let ?p = "''VoiceIt/Assets.xcassets/AppIcon.appiconset/icon-1024.png''"
  have z: "(0::int) \<le> 1024" by simp
  obtain g where g: "create_gradient 1024 1024 (124, 58, 237) (167, 85, 255) = Inr g"
    using create_gradient_props [OF z z] by blast
  have "save im ?p w = Inl (FileNotFoundError, w)" for im
    using assms(1,2) by (simp add: save_def Let_def icon_dirnames)
  then have "create_app_icon ?p 1024 w = Inl (FileNotFoundError, w)"
    using g by (simp add: create_app_icon_def Let_def)
  then show "generate_icon_script True w
           = (w\<lparr>stdout := stdout w @
                 [Error FileNotFoundError, To_fix_install_Pillow, Pip3_install_Pillow]\<rparr>, 0)"
    by (simp add: generate_icon_script_def generate_icon_main_def generate_icon_handler_def
        print_def)
next
  have "main v = Inl (FileExistsError, v)"
    using assms(3) by (simp add: main_def makedirs_def Let_def)
  then show "generate_alternate_icons_script True v
           = (v\<lparr>stdout := stdout v @ [Error FileExistsError],
                 stderr := stderr v @ [Traceback FileExistsError]\<rparr>, 0)"
    by (simp add: generate_alternate_icons_script_def alternate_icons_handler_def print_def)
qed

theorem generate_icon_logs_no_trace_witness:
  "generate_icon_script True empty_world
     = (empty_world\<lparr>stdout := stdout empty_world @
           [Error FileNotFoundError, To_fix_install_Pillow, Pip3_install_Pillow]\<rparr>, 0)
   \<and> generate_alternate_icons_script True
       (empty_world\<lparr>files := [''VoiceIt/Icons'' \<mapsto> \<lparr>mode = RGB, width = 1, height = 1,
          data = [(0, 0, 0)], drawn = []\<rparr>]\<rparr>)
     = (empty_world\<lparr>files := [''VoiceIt/Icons'' \<mapsto> \<lparr>mode = RGB, width = 1, height = 1,
          data = [(0, 0, 0)], drawn = []\<rparr>]\<rparr>
        \<lparr>stdout := stdout (empty_world\<lparr>files := [''VoiceIt/Icons'' \<mapsto> \<lparr>mode = RGB,
             width = 1, height = 1, data = [(0, 0, 0)], drawn = []\<rparr>]\<rparr>) @ [Error FileExistsError],
          stderr := stderr (empty_world\<lparr>files := [''VoiceIt/Icons'' \<mapsto> \<lparr>mode = RGB,
             width = 1, height = 1, data = [(0, 0, 0)], drawn = []\<rparr>]\<rparr>)
             @ [Traceback FileExistsError]\<rparr>, 0)"
proof -
  have 1: "''VoiceIt/Assets.xcassets/AppIcon.appiconset'' \<notin> dirs empty_world"
    "''VoiceIt/Assets.xcassets/AppIcon.appiconset/icon-1024.png'' \<notin> dirs empty_world"
    by (simp_all add: empty_world_def)
  have 2: "''VoiceIt/Icons'' \<in> dom (files (empty_world\<lparr>files := [''VoiceIt/Icons'' \<mapsto>
      \<lparr>mode = RGB, width = 1, height = 1, data = [(0, 0, 0)], drawn = []\<rparr>]\<rparr>))"
    by simp
  from 1 2 show ?thesis by (rule generate_icon_logs_no_trace)
qed

text \<open>
  Claim C4, as the code has it. For heights up to \<open>2^43\<close> and channel values up to 255, the
  gradient generator returns a canvas of the requested size. Its pixel at column \<open>x\<close>, row
  \<open>y\<close> is the same along the row: each channel is the 8-bit blend of the two colours
  through the mask value \<open>m = int(255 * (y / height))\<close>, where \<open>m * height \<le> 255 * y \<le>
  (m + 1) * height\<close>, and 255 times the channel is within 128 of
  \<open>top * (255 - m) + bottom * m\<close>: the linear interpolation of weight \<open>y / height\<close>, with the
  weight and the result each rounded to a byte. Row 0 is the top colour exactly. The last
  row has the weight \<open>(height - 1) / height\<close>, not 1; it is within one unit per channel of
  the bottom colour when the height is at least 256, and also in every gradient the
  scripts generate: the configured colour pairs at sizes 120 and 180, and the primary icon
  at 1024, where it is the bottom colour exactly.
\<close>

theorem gradient_rows:
  assumes "0 \<le> x" "x < w" "0 \<le> y" "y < h" "h \<le> 2 ^ 43"
    and "r1 \<le> 255" "g1 \<le> 255" "b1 \<le> 255" "r2 \<le> 255" "g2 \<le> 255" "b2 \<le> 255"
    and "icon_configs icon_type = Some (((p1, p2, p3), (q1, q2, q3)), draw_func)"
    and "s \<in> {120, 180}" "0 \<le> xa" "xa < s"
    and "0 \<le> xp" "xp < 1024"
  shows "(\<exists>img m r g b l.
      create_gradient w h (r1, g1, b1) (r2, g2, b2) = Inr img \<and> width img = w \<and> height img = h
    \<and> m = mask_value y h \<and> int m * h \<le> 255 * y \<and> 255 * y \<le> (int m + 1) * h
    \<and> pixel_at cover img x y = Some (r, g, b)
    \<and> r1 * (255 - m) + r2 * m \<le> 255 * r + 128 \<and> 255 * r \<le> r1 * (255 - m) + r2 * m + 127
    \<and> g1 * (255 - m) + g2 * m \<le> 255 * g + 128 \<and> 255 * g \<le> g1 * (255 - m) + g2 * m + 127
    \<and> b1 * (255 - m) + b2 * m \<le> 255 * b + 128 \<and> 255 * b \<le> b1 * (255 - m) + b2 * m + 127
    \<and> pixel_at cover img x 0 = Some (r1, g1, b1)
    \<and> l = mask_value (h - 1) h \<and> int l * h \<le> 255 * (h - 1) \<and> 255 * (h - 1) \<le> (int l + 1) * h
    \<and> pixel_at cover img x (h - 1) = Some (BLEND l r1 r2, BLEND l g1 g2, BLEND l b1 b2)
    \<and> (h < 256 \<or> BLEND l r1 r2 \<le> r2 + 1 \<and> r2 \<le> BLEND l r1 r2 + 1
                  \<and> BLEND l g1 g2 \<le> g2 + 1 \<and> g2 \<le> BLEND l g1 g2 + 1
                  \<and> BLEND l b1 b2 \<le> b2 + 1 \<and> b2 \<le> BLEND l b1 b2 + 1))
  \<and> (\<exists>img r g b. create_gradient s s (p1, p2, p3) (q1, q2, q3) = Inr img
      \<and> pixel_at cover img xa (s - 1) = Some (r, g, b)
      \<and> r \<le> q1 + 1 \<and> q1 \<le> r + 1 \<and> g \<le> q2 + 1 \<and> q2 \<le> g + 1 \<and> b \<le> q3 + 1 \<and> q3 \<le> b + 1)
  \<and> (\<exists>img. create_gradient 1024 1024 (124, 58, 237) (167, 85, 255) = Inr img
      \<and> pixel_at cover img xp (1024 - 1) = Some (167, 85, 255))"
proof (intro conjI)
  show "(\<exists>img m r g b l.
      create_gradient w h (r1, g1, b1) (r2, g2, b2) = Inr img \<and> width img = w \<and> height img = h
    \<and> m = mask_value y h \<and> int m * h \<le> 255 * y \<and> 255 * y \<le> (int m + 1) * h
    \<and> pixel_at cover img x y = Some (r, g, b)
    \<and> r1 * (255 - m) + r2 * m \<le> 255 * r + 128 \<and> 255 * r \<le> r1 * (255 - m) + r2 * m + 127
    \<and> g1 * (255 - m) + g2 * m \<le> 255 * g + 128 \<and> 255 * g \<le> g1 * (255 - m) + g2 * m + 127
    \<and> b1 * (255 - m) + b2 * m \<le> 255 * b + 128 \<and> 255 * b \<le> b1 * (255 - m) + b2 * m + 127
    \<and> pixel_at cover img x 0 = Some (r1, g1, b1)
    \<and> l = mask_value (h - 1) h \<and> int l * h \<le> 255 * (h - 1) \<and> 255 * (h - 1) \<le> (int l + 1) * h
    \<and> pixel_at cover img x (h - 1) = Some (BLEND l r1 r2, BLEND l g1 g2, BLEND l b1 b2)
    \<and> (h < 256 \<or> BLEND l r1 r2 \<le> r2 + 1 \<and> r2 \<le> BLEND l r1 r2 + 1
                  \<and> BLEND l g1 g2 \<le> g2 + 1 \<and> g2 \<le> BLEND l g1 g2 + 1
                  \<and> BLEND l b1 b2 \<le> b2 + 1 \<and> b2 \<le> BLEND l b1 b2 + 1))"
    using assms(1-11) by (rule gradient_rows_general)
  show "(\<exists>img r g b. create_gradient s s (p1, p2, p3) (q1, q2, q3) = Inr img
      \<and> pixel_at cover img xa (s - 1) = Some (r, g, b)
      \<and> r \<le> q1 + 1 \<and> q1 \<le> r + 1 \<and> g \<le> q2 + 1 \<and> q2 \<le> g + 1 \<and> b \<le> q3 + 1 \<and> q3 \<le> b + 1)"
    using assms(12-15) by (rule alternate_last_row)
  show "(\<exists>img. create_gradient 1024 1024 (124, 58, 237) (167, 85, 255) = Inr img
      \<and> pixel_at cover img xp (1024 - 1) = Some (167, 85, 255))"
    using assms(16,17) by (rule primary_last_row)
qed

theorem gradient_rows_witness:
  "(\<exists>img m r g b l.
      create_gradient 1024 1024 (124, 58, 237) (167, 85, 255) = Inr img \<and> width img = 1024 \<and> height img = 1024
    \<and> m = mask_value 512 1024 \<and> int m * 1024 \<le> 255 * 512 \<and> 255 * 512 \<le> (int m + 1) * 1024
    \<and> pixel_at (\<lambda>c x y. False) img 7 512 = Some (r, g, b)
    \<and> 124 * (255 - m) + 167 * m \<le> 255 * r + 128 \<and> 255 * r \<le> 124 * (255 - m) + 167 * m + 127
    \<and> 58 * (255 - m) + 85 * m \<le> 255 * g + 128 \<and> 255 * g \<le> 58 * (255 - m) + 85 * m + 127
    \<and> 237 * (255 - m) + 255 * m \<le> 255 * b + 128 \<and> 255 * b \<le> 237 * (255 - m) + 255 * m + 127
    \<and> pixel_at (\<lambda>c x y. False) img 7 0 = Some (124, 58, 237)
    \<and> l = mask_value (1024 - 1) 1024 \<and> int l * 1024 \<le> 255 * (1024 - 1) \<and> 255 * (1024 - 1) \<le> (int l + 1) * 1024
    \<and> pixel_at (\<lambda>c x y. False) img 7 (1024 - 1) = Some (BLEND l 124 167, BLEND l 58 85, BLEND l 237 255)
    \<and> ((1024::int) < 256 \<or> BLEND l 124 167 \<le> 167 + 1 \<and> 167 \<le> BLEND l 124 167 + 1
                  \<and> BLEND l 58 85 \<le> 85 + 1 \<and> 85 \<le> BLEND l 58 85 + 1
                  \<and> BLEND l 237 255 \<le> 255 + 1 \<and> 255 \<le> BLEND l 237 255 + 1))
  \<and> (\<exists>img r g b. create_gradient 120 120 (70, 130, 200) (100, 180, 255) = Inr img
      \<and> pixel_at (\<lambda>c x y. False) img 5 (120 - 1) = Some (r, g, b)
      \<and> r \<le> 100 + 1 \<and> 100 \<le> r + 1 \<and> g \<le> 180 + 1 \<and> 180 \<le> g + 1 \<and> b \<le> 255 + 1 \<and> 255 \<le> b + 1)
  \<and> (\<exists>img. create_gradient 1024 1024 (124, 58, 237) (167, 85, 255) = Inr img
      \<and> pixel_at (\<lambda>c x y. False) img 9 (1024 - 1) = Some (167, 85, 255))"
proof -
  have 1: "(0::int) \<le> 7" "(7::int) < 1024" "(0::int) \<le> 512" "(512::int) < 1024"
    "(1024::int) \<le> 2 ^ 43" by simp_all
  have 2: "(124::nat) \<le> 255" "(58::nat) \<le> 255" "(237::nat) \<le> 255"
    "(167::nat) \<le> 255" "(85::nat) \<le> 255" "(255::nat) \<le> 255" by simp_all
  have 3: "icon_configs ''Weather''
      = Some (((70, 130, 200), (100, 180, 255)), draw_weather_icon)"
    by (simp add: icon_configs_def)
  have 4: "(120::int) \<in> {120, 180}" "(0::int) \<le> 5" "(5::int) < 120" by simp_all
  have 5: "(0::int) \<le> 9" "(9::int) < 1024" by simp_all
  from 1 2 3 4 5 show ?thesis by (rule gradient_rows)
qed

text \<open>
  Claim C4 as stated fails for small heights: with one row, the last row is the top
  colour (black), 255 units from the bottom colour (white).
\<close>

theorem gradient_single_row:
  "\<exists>img. create_gradient 1 1 (0, 0, 0) (255, 255, 255) = Inr img
     \<and> pixel_at (\<lambda>c x y. False) img 0 (1 - 1) = Some (0, 0, 0)"
proof -
  have z: "(0::int) \<le> 1" by simp
  have ch: "(0::nat) \<le> 255" "(255::nat) \<le> 255" by simp_all
  have c: "create_gradient 1 1 (0, 0, 0) (255, 255, 255) =
    Inr \<lparr>mode = RGB, width = 1, height = 1,
         data = map (\<lambda>m. blend_rgb m (0, 0, 0) (255, 255, 255)) (mask_data 1 1), drawn = []\<rparr>"
    using z z ch(1) ch(1) ch(1) ch(2) ch(2) ch(2) by (rule gradient_image)
  have r: "(0::int) \<le> 0" "(0::int) < 1" by simp_all
  have "pixel_at (\<lambda>c x y. False) \<lparr>mode = RGB, width = 1, height = 1,
         data = map (\<lambda>m. blend_rgb m (0, 0, 0) (255, 255, 255)) (mask_data 1 1), drawn = []\<rparr> 0 0
       = Some (blend_rgb (mask_value 0 1) (0, 0, 0) (255, 255, 255))"
    using r r by (rule gradient_pixel)
  also have "\<dots> = Some (0, 0, 0)"
    by (simp add: mask_value_0 BLEND_0)
  finally show ?thesis using c by simp
qed

text \<open>
  Claim C8. For every size from 1 to \<open>2 ^ 40\<close> and every output path that can be written
  (its directory exists, the path is no directory), \<open>create_app_icon\<close> writes an image
  of exactly \<open>size' \<times> size'\<close> pixels in mode RGB (three channels, no alpha), whose pixels are
  the purple gradient and on which the waveform is drawn at the centre with glyph size
  \<open>g = size' div 2\<close>: five rounded bars of width \<open>2 * (g div 10 div 2)\<close>,
  \<open>g div 10 + g div 12\<close> apart, of half heights \<open>g div 4\<close>, \<open>h7\<close>, \<open>g div 2\<close>, \<open>h7\<close>, \<open>g div 4\<close>
  where \<open>h7\<close> is \<open>7 * g / 20\<close> rounded down (possibly one less when that quotient is an
  integer); it prints the line ``Created app icon''. The script, run with Pillow installed where the asset directory exists, writes
  icon-1024.png of 1024 by 1024 pixels, RGB, with the five bars of glyph size 512, prints
  the three success lines and exits with status 0.
\<close>

theorem primary_icon:
  assumes "0 < size'" and "size' \<le> 2 ^ 40"
    and "output_path \<noteq> []" and "output_path \<notin> dirs w"
    and "os_path_dirname output_path = [] \<or> os_path_dirname output_path \<in> dirs w"
    and "''VoiceIt/Assets.xcassets/AppIcon.appiconset'' \<in> dirs w0"
    and "''VoiceIt/Assets.xcassets/AppIcon.appiconset/icon-1024.png'' \<notin> dirs w0"
  shows "(\<exists>img g h7. g = size' div 2
           \<and> create_app_icon output_path size' w
               = Inr (print (Created_app_icon output_path) (w\<lparr>files := (files w)(output_path \<mapsto> img)\<rparr>))
           \<and> mode img = RGB \<and> \<not> has_alpha img \<and> width img = size' \<and> height img = size'
           \<and> data img = map (\<lambda>m. blend_rgb m (124, 58, 237) (167, 85, 255)) (mask_data size' size')
           \<and> length (data img) = nat (size' * size')
           \<and> drawn img = draw_waveform g g g (RGB3 255 255 255)
           \<and> 20 * h7 \<le> 7 * g \<and> 7 * g \<le> 20 * h7 + 20
           \<and> draw_waveform g g g (RGB3 255 255 255)
               = map (\<lambda>(k, hh). rounded_rectangle
                        (of_int (g + k * (g div 10 + g div 12) - g div 10 div 2)) (of_int (g - hh))
                        (of_int (g + k * (g div 10 + g div 12) + g div 10 div 2)) (of_int (g + hh))
                        (g div 10 div 2) (RGB3 255 255 255) None)
                   [(- 2, g div 4), (- 1, h7), (0, g div 2), (1, h7), (2, g div 4)])
       \<and> (\<exists>img. generate_icon_script True w0
             = (w0\<lparr>files := (files w0)
                      (''VoiceIt/Assets.xcassets/AppIcon.appiconset/icon-1024.png'' \<mapsto> img),
                    stdout := stdout w0 @
                      [Created_app_icon ''VoiceIt/Assets.xcassets/AppIcon.appiconset/icon-1024.png'',
                       App_icon_generated, Icon_will_appear]\<rparr>, 0)
           \<and> mode img = RGB \<and> \<not> has_alpha img \<and> width img = 1024 \<and> height img = 1024
           \<and> length (data img) = 1024 * 1024
           \<and> drawn img =
               [rounded_rectangle 301 384 351 640 25 (RGB3 255 255 255) None,
                rounded_rectangle 394 333 444 691 25 (RGB3 255 255 255) None,
                rounded_rectangle 487 256 537 768 25 (RGB3 255 255 255) None,
                rounded_rectangle 580 333 630 691 25 (RGB3 255 255 255) None,
                rounded_rectangle 673 384 723 640 25 (RGB3 255 255 255) None])"
proof (rule conjI)
  define g where "g = size' div 2"
  define h7 where "h7 = half_bar g (fl (7 / 10))"
  define G :: "rgb image" where "G = \<lparr>mode = RGB, width = size', height = size',
    data = map (\<lambda>m. blend_rgb m (124, 58, 237) (167, 85, 255)) (mask_data size' size'),
    drawn = []\<rparr>"
  define I where "I = draw_on G (draw_waveform g g g (RGB3 255 255 255))"
  have g0: "0 \<le> g" and g40: "g \<le> 2 ^ 40" and ga: "\<bar>g\<bar> \<le> 2 ^ 40"
    using assms(1,2) by (simp_all add: g_def)
  have c: "create_app_icon output_path size' w
      = Inr (print (Created_app_icon output_path) (w\<lparr>files := (files w)(output_path \<mapsto> I)\<rparr>))"
    unfolding I_def G_def g_def using assms(1,3,4,5) by (rule create_app_icon_result)
  have n: "nat size' * nat size' = nat (size' * size')"
    using assms(1) by (simp add: nat_mult_distrib)
  have f: "mode I = RGB" "\<not> has_alpha I" "width I = size'" "height I = size'"
    "data I = map (\<lambda>m. blend_rgb m (124, 58, 237) (167, 85, 255)) (mask_data size' size')"
    "length (data I) = nat (size' * size')"
    "drawn I = draw_waveform g g g (RGB3 255 255 255)"
    by (simp_all add: I_def G_def draw_on_fields has_alpha_def length_mask_data n)
  have h: "20 * h7 \<le> 7 * g" "7 * g \<le> 20 * h7 + 20"
    using half_bar_7 [OF g0 g40] by (simp_all add: h7_def)
  have e: "draw_waveform g g g (RGB3 255 255 255)
      = map (\<lambda>(k, hh). rounded_rectangle
               (of_int (g + k * (g div 10 + g div 12) - g div 10 div 2)) (of_int (g - hh))
               (of_int (g + k * (g div 10 + g div 12) + g div 10 div 2)) (of_int (g + hh))
               (g div 10 div 2) (RGB3 255 255 255) None)
          [(- 2, g div 4), (- 1, h7), (0, g div 2), (1, h7), (2, g div 4)]"
    unfolding h7_def using g0 g40 ga by (rule draw_waveform_eq)
  show "(\<exists>img g h7. g = size' div 2
             \<and> create_app_icon output_path size' w
                 = Inr (print (Created_app_icon output_path) (w\<lparr>files := (files w)(output_path \<mapsto> img)\<rparr>))
             \<and> mode img = RGB \<and> \<not> has_alpha img \<and> width img = size' \<and> height img = size'
             \<and> data img = map (\<lambda>m. blend_rgb m (124, 58, 237) (167, 85, 255)) (mask_data size' size')
             \<and> length (data img) = nat (size' * size')
             \<and> drawn img = draw_waveform g g g (RGB3 255 255 255)
             \<and> 20 * h7 \<le> 7 * g \<and> 7 * g \<le> 20 * h7 + 20
             \<and> draw_waveform g g g (RGB3 255 255 255)
                 = map (\<lambda>(k, hh). rounded_rectangle
                          (of_int (g + k * (g div 10 + g div 12) - g div 10 div 2)) (of_int (g - hh))
                          (of_int (g + k * (g div 10 + g div 12) + g div 10 div 2)) (of_int (g + hh))
                          (g div 10 div 2) (RGB3 255 255 255) None)
                     [(- 2, g div 4), (- 1, h7), (0, g div 2), (1, h7), (2, g div 4)])"
    by (rule exI [of _ I], rule exI [of _ g], rule exI [of _ h7])
      (intro conjI g_def c f h e)
next
  let ?p = "''VoiceIt/Assets.xcassets/AppIcon.appiconset/icon-1024.png''"
  define G :: "rgb image" where "G = \<lparr>mode = RGB, width = 1024, height = 1024,
    data = map (\<lambda>m. blend_rgb m (124, 58, 237) (167, 85, 255)) (mask_data 1024 1024),
    drawn = []\<rparr>"
  define I where "I = draw_on G (draw_waveform (1024 div 2) (1024 div 2) (1024 div 2)
    (RGB3 255 255 255))"
  have d: "os_path_dirname ?p = [] \<or> os_path_dirname ?p \<in> dirs w0"
    using assms(6) by (simp only: icon_dirnames) simp
  have z: "(0::int) < 1024" and ne: "?p \<noteq> []" by simp_all
  have c: "create_app_icon ?p 1024 w0
      = Inr (print (Created_app_icon ?p) (w0\<lparr>files := (files w0)(?p \<mapsto> I)\<rparr>))"
    unfolding I_def G_def using z ne assms(7) d by (rule create_app_icon_result)
  have s: "generate_icon_script True w0
      = (w0\<lparr>files := (files w0)(?p \<mapsto> I),
             stdout := stdout w0 @
               [Created_app_icon ?p, App_icon_generated, Icon_will_appear]\<rparr>, 0)"
    by (simp add: generate_icon_script_def generate_icon_main_def generate_icon_handler_def c
        print_def)
  have f: "mode I = RGB" "\<not> has_alpha I" "width I = 1024" "height I = 1024"
    "length (data I) = 1024 * 1024"
    by (simp_all add: I_def G_def draw_on_fields has_alpha_def length_mask_data)
  have b: "drawn I =
       [rounded_rectangle 301 384 351 640 25 (RGB3 255 255 255) None,
        rounded_rectangle 394 333 444 691 25 (RGB3 255 255 255) None,
        rounded_rectangle 487 256 537 768 25 (RGB3 255 255 255) None,
        rounded_rectangle 580 333 630 691 25 (RGB3 255 255 255) None,
        rounded_rectangle 673 384 723 640 25 (RGB3 255 255 255) None]"
    by (simp add: I_def G_def draw_on_fields waveform_512)
  show "(\<exists>img. generate_icon_script True w0
               = (w0\<lparr>files := (files w0)
                        (''VoiceIt/Assets.xcassets/AppIcon.appiconset/icon-1024.png'' \<mapsto> img),
                      stdout := stdout w0 @
                        [Created_app_icon ''VoiceIt/Assets.xcassets/AppIcon.appiconset/icon-1024.png'',
                         App_icon_generated, Icon_will_appear]\<rparr>, 0)
             \<and> mode img = RGB \<and> \<not> has_alpha img \<and> width img = 1024 \<and> height img = 1024
             \<and> length (data img) = 1024 * 1024
             \<and> drawn img =
                 [rounded_rectangle 301 384 351 640 25 (RGB3 255 255 255) None,
                  rounded_rectangle 394 333 444 691 25 (RGB3 255 255 255) None,
                  rounded_rectangle 487 256 537 768 25 (RGB3 255 255 255) None,
                  rounded_rectangle 580 333 630 691 25 (RGB3 255 255 255) None,
                  rounded_rectangle 673 384 723 640 25 (RGB3 255 255 255) None])"
    by (rule exI [of _ I]) (intro conjI s f b)
qed

theorem primary_icon_witness:
  "(\<exists>img g h7. g = 180 div 2
           \<and> create_app_icon ''out/icon.png'' 180 (empty_world\<lparr>dirs := {''out''}\<rparr>)
               = Inr (print (Created_app_icon ''out/icon.png'') ((empty_world\<lparr>dirs := {''out''}\<rparr>)\<lparr>files := (files (empty_world\<lparr>dirs := {''out''}\<rparr>))(''out/icon.png'' \<mapsto> img)\<rparr>))
           \<and> mode img = RGB \<and> \<not> has_alpha img \<and> width img = 180 \<and> height img = 180
           \<and> data img = map (\<lambda>m. blend_rgb m (124, 58, 237) (167, 85, 255)) (mask_data 180 180)
           \<and> length (data img) = nat (180 * 180)
           \<and> drawn img = draw_waveform g g g (RGB3 255 255 255)
           \<and> 20 * h7 \<le> 7 * g \<and> 7 * g \<le> 20 * h7 + 20
           \<and> draw_waveform g g g (RGB3 255 255 255)
               = map (\<lambda>(k, hh). rounded_rectangle
                        (of_int (g + k * (g div 10 + g div 12) - g div 10 div 2)) (of_int (g - hh))
                        (of_int (g + k * (g div 10 + g div 12) + g div 10 div 2)) (of_int (g + hh))
                        (g div 10 div 2) (RGB3 255 255 255) None)
                   [(- 2, g div 4), (- 1, h7), (0, g div 2), (1, h7), (2, g div 4)])
   \<and> (\<exists>img. generate_icon_script True (empty_world\<lparr>dirs := {''VoiceIt/Assets.xcassets/AppIcon.appiconset''}\<rparr>)
             = ((empty_world\<lparr>dirs := {''VoiceIt/Assets.xcassets/AppIcon.appiconset''}\<rparr>)\<lparr>files := (files (empty_world\<lparr>dirs := {''VoiceIt/Assets.xcassets/AppIcon.appiconset''}\<rparr>))
                      (''VoiceIt/Assets.xcassets/AppIcon.appiconset/icon-1024.png'' \<mapsto> img),
                    stdout := stdout (empty_world\<lparr>dirs := {''VoiceIt/Assets.xcassets/AppIcon.appiconset''}\<rparr>) @
                      [Created_app_icon ''VoiceIt/Assets.xcassets/AppIcon.appiconset/icon-1024.png'',
                       App_icon_generated, Icon_will_appear]\<rparr>, 0)
           \<and> mode img = RGB \<and> \<not> has_alpha img \<and> width img = 1024 \<and> height img = 1024
           \<and> length (data img) = 1024 * 1024
           \<and> drawn img =
               [rounded_rectangle 301 384 351 640 25 (RGB3 255 255 255) None,
                rounded_rectangle 394 333 444 691 25 (RGB3 255 255 255) None,
                rounded_rectangle 487 256 537 768 25 (RGB3 255 255 255) None,
                rounded_rectangle 580 333 630 691 25 (RGB3 255 255 255) None,
                rounded_rectangle 673 384 723 640 25 (RGB3 255 255 255) None])"
proof -
  have 1: "(0::int) < 180" "(180::int) \<le> 2 ^ 40" "''out/icon.png'' \<noteq> []"
    "''out/icon.png'' \<notin> dirs (empty_world\<lparr>dirs := {''out''}\<rparr>)"
    by simp_all
  have 2: "os_path_dirname ''out/icon.png'' = []
      \<or> os_path_dirname ''out/icon.png'' \<in> dirs (empty_world\<lparr>dirs := {''out''}\<rparr>)"
    by (simp only: icon_dirnames) simp
  have 3: "''VoiceIt/Assets.xcassets/AppIcon.appiconset''
      \<in> dirs (empty_world\<lparr>dirs := {''VoiceIt/Assets.xcassets/AppIcon.appiconset''}\<rparr>)"
    "''VoiceIt/Assets.xcassets/AppIcon.appiconset/icon-1024.png''
      \<notin> dirs (empty_world\<lparr>dirs := {''VoiceIt/Assets.xcassets/AppIcon.appiconset''}\<rparr>)"
    by simp_all
  from 1 2 3 show ?thesis by (rule primary_icon)
qed






text \<open>
  Claim C3. The three columns of the calculator's buttons start at
  \<open>center_x - b - g\<close>, \<open>center_x\<close> and \<open>center_x + b + g\<close> with \<open>b = size' div 7\<close> the side of
  a button and \<open>g = size' div 15\<close>: the grid is symmetric about the line
  \<open>x = center_x + b / 2\<close>, and from size 7 on (\<open>b \<ge> 1\<close>) the calls of the calculator drawer
  are not symmetric about \<open>x = center_x\<close>. The display is symmetric about \<open>center_x\<close> when
  its width \<open>int(size * 0.8)\<close> is even, and about \<open>center_x + 1 / 2\<close> when it is odd. The
  calls of the waveform drawer (size up to \<open>2 ^ 40\<close>), of the wellness drawer, and the sun
  and cloud disks of the weather drawer are symmetric about \<open>x = center_x\<close>. The eight rays
  of the weather drawer, whose end points come from \<open>math.cos\<close> and \<open>math.sin\<close>, are not
  covered.
\<close>

theorem calculator_grid_off_centre:
  assumes "7 \<le> size'"
  shows "\<not> symmetric_about (of_int center_x) (draw_calculator_icon center_x center_y size' color)
     \<and> symmetric_about (of_int center_x + of_int (size' div 7) / 2)
         (calculator_buttons center_x center_y size' color)
     \<and> symmetric_about
         (of_int center_x + of_int (py_int (fl (float_of_int size' * fl (8 / 10))) mod 2) / 2)
         [calculator_display center_x center_y size' color]
     \<and> (size' \<le> 2 ^ 40 \<and> \<bar>center_y\<bar> \<le> 2 ^ 40 \<longrightarrow>
          symmetric_about (of_int center_x) (draw_waveform center_x center_y size' color))
     \<and> symmetric_about (of_int center_x) (draw_wellness_icon center_x center_y size' color)
     \<and> symmetric_about (of_int center_x) (weather_disks center_x center_y size' color)"
proof (intro conjI impI)
  show "\<not> symmetric_about (of_int center_x) (draw_calculator_icon center_x center_y size' color)"
    using assms by (rule calculator_not_symmetric)
  show "symmetric_about (of_int center_x + of_int (size' div 7) / 2)
         (calculator_buttons center_x center_y size' color)"
    by (rule calculator_buttons_symmetric)
  show "symmetric_about
         (of_int center_x + of_int (py_int (fl (float_of_int size' * fl (8 / 10))) mod 2) / 2)
         [calculator_display center_x center_y size' color]"
    by (rule calculator_display_symmetric)
  show "symmetric_about (of_int center_x) (draw_wellness_icon center_x center_y size' color)"
    by (rule wellness_symmetric)
  show "symmetric_about (of_int center_x) (weather_disks center_x center_y size' color)"
    by (rule weather_disks_symmetric)
next
  assume "size' \<le> 2 ^ 40 \<and> \<bar>center_y\<bar> \<le> 2 ^ 40"
  then have "size' \<le> 2 ^ 40" "\<bar>center_y\<bar> \<le> 2 ^ 40" by simp_all
  moreover have "0 \<le> size'" using assms by simp
  ultimately show "symmetric_about (of_int center_x)
      (draw_waveform center_x center_y size' color)"
    by (intro waveform_symmetric)
qed

theorem calculator_grid_off_centre_witness:
  "\<not> symmetric_about (of_int 60) (draw_calculator_icon 60 60 60 (RGBA4 255 255 255 255))
     \<and> symmetric_about (of_int 60 + of_int (60 div 7) / 2)
         (calculator_buttons 60 60 60 (RGBA4 255 255 255 255))
     \<and> symmetric_about
         (of_int 60 + of_int (py_int (fl (float_of_int 60 * fl (8 / 10))) mod 2) / 2)
         [calculator_display 60 60 60 (RGBA4 255 255 255 255)]
     \<and> symmetric_about (of_int 60) (draw_waveform 60 60 60 (RGBA4 255 255 255 255))
     \<and> symmetric_about (of_int 60) (draw_wellness_icon 60 60 60 (RGBA4 255 255 255 255))
     \<and> symmetric_about (of_int 60) (weather_disks 60 60 60 (RGBA4 255 255 255 255))"
  using calculator_grid_off_centre [of 60 60 60 "RGBA4 255 255 255 255"] by simp

end
